theory Spec2Isabelle
  imports Main "HOL-Library.Word"
begin

unbundle bit_operations_syntax

section \<open>Machine integers and bit helpers\<close>

type_synonym u8 = "8 word"
type_synonym u16 = "16 word"
type_synonym u32 = "32 word"
type_synonym u64 = "64 word"

text \<open>
  Modelled from the spec: \<^verbatim>\<open>bit_ops.h\<close> is not among the sources; the spec only names
  "bit extract/replace helpers".  \<open>bit_cut val pos bits\<close> extracts \<open>bits\<close> bits of
  \<open>val\<close> starting at bit \<open>pos\<close>; \<open>bit_replace val pos bits rep\<close> replaces that field
  by the low \<open>bits\<close> bits of \<open>rep\<close>; \<open>bit_check val pos\<close> tests a single bit.
  In every call made by \<^verbatim>\<open>riscv32_trap\<close> and \<^verbatim>\<open>riscv32_perform_interrupt\<close> on a hart
  whose privilege is one of the four levels, the replacement value fits the field.
\<close>

definition bit_cut :: "u32 \<Rightarrow> nat \<Rightarrow> nat \<Rightarrow> u32" where
  "bit_cut val pos bits = drop_bit pos val AND mask bits"

definition bit_replace :: "u32 \<Rightarrow> nat \<Rightarrow> nat \<Rightarrow> u32 \<Rightarrow> u32" where
  "bit_replace val pos bits rep =
     (val AND NOT (push_bit pos (mask bits))) OR push_bit pos (rep AND mask bits)"

definition bit_check :: "u32 \<Rightarrow> nat \<Rightarrow> bool" where
  "bit_check val pos = (drop_bit pos val AND 1 \<noteq> 0)"

section \<open>Hart state (riscv32.h)\<close>

definition REGISTER_PC :: nat where "REGISTER_PC = 32"
definition REGISTERS_MAX :: nat where "REGISTERS_MAX = 33"

definition PRIVILEGE_USER :: u8 where "PRIVILEGE_USER = 0"
definition PRIVILEGE_SUPERVISOR :: u8 where "PRIVILEGE_SUPERVISOR = 1"
definition PRIVILEGE_HYPERVISOR :: u8 where "PRIVILEGE_HYPERVISOR = 2"
definition PRIVILEGE_MACHINE :: u8 where "PRIVILEGE_MACHINE = 3"

definition INTERRUPT_MASK :: u32 where "INTERRUPT_MASK = 0x80000000"
definition INTERRUPT_MTIMER :: nat where "INTERRUPT_MTIMER = 7"
definition TRAP_ILL_INSTR :: u32 where "TRAP_ILL_INSTR = 2"

text \<open>
  Modelled from the spec: \<^verbatim>\<open>rvtimer.h\<close> is not among the sources.  The spec describes
  the timer as a monotonic frequency-scaled counter plus a compare register with a
  pending predicate.  \<open>time\<close> is the counter value the host clock yields when the
  timer is read; the timer is pending once the counter has reached the compare value.
\<close>

record rvtimer_t =
  freq :: nat
  time :: u64
  timecmp :: u64

definition rvtimer_pending :: "rvtimer_t \<Rightarrow> bool" where
  "rvtimer_pending t = (timecmp t \<le> time t)"

definition rvtimer_init :: "rvtimer_t \<Rightarrow> nat \<Rightarrow> rvtimer_t" where
  "rvtimer_init t f = t\<lparr>freq := f\<rparr>"

text \<open>
  The \<^verbatim>\<open>csr\<close> member of \<^verbatim>\<open>riscv32_vm_state_t\<close>.  The four-element arrays are
  functions from the privilege index; the code only indexes them with a privilege
  level.
\<close>

record riscv32_csr_t =
  status :: u32
  edeleg :: "u8 \<Rightarrow> u32"
  ideleg :: "u8 \<Rightarrow> u32"
  ie :: u32
  tvec :: "u8 \<Rightarrow> u32"
  counteren :: "u8 \<Rightarrow> u32"
  scratch :: "u8 \<Rightarrow> u32"
  epc :: "u8 \<Rightarrow> u32"
  cause :: "u8 \<Rightarrow> u32"
  tval :: "u8 \<Rightarrow> u32"
  ip :: u32
  hartid :: u32

text \<open>
  \<^verbatim>\<open>riscv32_vm_state_t\<close>.  The TLB, the MMIO table and the host pointer of the
  physical memory belong to files that are not among the sources
  (\<^verbatim>\<open>riscv32_mmu.h\<close>) and are not read by the functions embedded here; of
  \<^verbatim>\<open>mem\<close> only \<^verbatim>\<open>begin\<close> is kept.
\<close>

record riscv32_vm_state_t =
  wait_event :: int
  registers :: "nat \<Rightarrow> u32"
  mem_begin :: u32
  csr :: riscv32_csr_t
  root_page_table :: u32
  mmu_virtual :: bool
  priv_mode :: u8
  timer :: rvtimer_t
  ev_trap :: bool
  ev_int :: bool
  ev_int_mask :: u32

text \<open>
  Modelled from the spec: \<^verbatim>\<open>riscv32i_registers.h\<close> is not among the sources.  The spec
  gives 32 general-purpose registers plus a program counter, where register index 0
  reads as zero and discards writes; the guest registers are 32 bits wide.
\<close>

definition riscv32i_read_register_u :: "riscv32_vm_state_t \<Rightarrow> nat \<Rightarrow> u32" where
  "riscv32i_read_register_u vm reg = (if reg = 0 then 0 else registers vm reg)"

definition riscv32i_write_register_u ::
  "riscv32_vm_state_t \<Rightarrow> nat \<Rightarrow> u32 \<Rightarrow> riscv32_vm_state_t" where
  "riscv32i_write_register_u vm reg v =
     (if reg = 0 then vm else vm\<lparr>registers := (registers vm)(reg := v)\<rparr>)"

section \<open>Trap and interrupt delivery (riscv32.c)\<close>

text \<open>
  The delegation loop shared by \<^verbatim>\<open>riscv32_trap\<close> (lines 281-283, lower bound
  \<^verbatim>\<open>vm->priv_mode\<close>) and \<^verbatim>\<open>riscv32_perform_interrupt\<close> (lines 254-256, lower bound
  \<^verbatim>\<open>cause & 0x3\<close>):
  \<^verbatim>\<open>for (priv = PRIVILEGE_MACHINE; priv > lim; --priv)
       if ((deleg[priv] & (1 << cause)) == 0) break;\<close>
  \<open>deleg_loop deleg cause lim priv\<close> is the value of \<^verbatim>\<open>priv\<close> on leaving the loop
  when the loop variable currently holds \<open>priv\<close>.  The shift \<^verbatim>\<open>1 << cause\<close> is defined
  in C for \<open>cause < 32\<close> only; every caller passes a cause code below 16.
\<close>

function deleg_loop :: "(u8 \<Rightarrow> u32) \<Rightarrow> u32 \<Rightarrow> u8 \<Rightarrow> u8 \<Rightarrow> u8" where
  "deleg_loop deleg c lim priv =
     (if lim < priv then
        (if deleg priv AND push_bit (unat c) 1 = 0 then priv
         else deleg_loop deleg c lim (priv - 1))
      else priv)"
  by pat_completeness auto
termination
proof (relation "measure (\<lambda>(deleg, c, lim, priv). unat priv)")
  show "wf (measure (\<lambda>(deleg :: u8 \<Rightarrow> u32, c :: u32, lim :: u8, priv :: u8). unat priv))"
    by simp
next
  fix deleg :: "u8 \<Rightarrow> u32" and c :: u32 and lim priv :: u8
  assume "lim < priv"
  then have "priv \<noteq> 0"
    by (auto simp: word_less_nat_alt)
  then have "unat (priv - 1) < unat priv"
    by (simp add: unat_minus_one unat_gt_0)
  then show "((deleg, c, lim, priv - 1), (deleg, c, lim, priv))
      \<in> measure (\<lambda>(deleg, c, lim, priv). unat priv)"
    by simp
qed

declare deleg_loop.simps [simp del]

text \<open>
  Lines 290-298 of \<^verbatim>\<open>riscv32_trap\<close> and 264-272 of \<^verbatim>\<open>riscv32_perform_interrupt\<close>
  (the same text): save the current privilege to xPP and xIE to xPIE, clear xIE.
  Only Machine and Supervisor targets touch \<^verbatim>\<open>status\<close>.
\<close>

definition save_status :: "u8 \<Rightarrow> u8 \<Rightarrow> u32 \<Rightarrow> u32" where
  "save_status priv prev st =
     (if priv = PRIVILEGE_MACHINE then
        (let s1 = bit_replace st 11 2 (ucast prev);
             s2 = bit_replace s1 7 1 (bit_cut s1 3 1)
         in s2 AND 0xFFFFFFF7)
      else if priv = PRIVILEGE_SUPERVISOR then
        (let s1 = bit_replace st 8 1 (ucast prev);
             s2 = bit_replace s1 5 1 (bit_cut s1 1 1)
         in s2 AND 0xFFFFFFFD)
      else st)"

definition riscv32_trap :: "riscv32_vm_state_t \<Rightarrow> u32 \<Rightarrow> u32 \<Rightarrow> riscv32_vm_state_t" where
  "riscv32_trap vm c tv =
     (let priv = deleg_loop (edeleg (csr vm)) c (priv_mode vm) PRIVILEGE_MACHINE;
          cs = csr vm
      in vm\<lparr>csr := cs\<lparr>epc := (epc cs)(priv := riscv32i_read_register_u vm REGISTER_PC),
                       cause := (cause cs)(priv := c),
                       tval := (tval cs)(priv := tv),
                       status := save_status priv (priv_mode vm) (status cs)\<rparr>,
            priv_mode := priv,
            ev_trap := True,
            wait_event := 0\<rparr>)"

definition riscv32_perform_interrupt :: "riscv32_vm_state_t \<Rightarrow> u32 \<Rightarrow> riscv32_vm_state_t" where
  "riscv32_perform_interrupt vm c =
     (let priv = deleg_loop (ideleg (csr vm)) c (ucast (c AND 3)) PRIVILEGE_MACHINE;
          cs = csr vm
      in vm\<lparr>csr := cs\<lparr>epc := (epc cs)(priv := riscv32i_read_register_u vm REGISTER_PC),
                       cause := (cause cs)(priv := c OR INTERRUPT_MASK),
                       tval := (tval cs)(priv := 0),
                       status := save_status priv (priv_mode vm) (status cs)\<rparr>,
            priv_mode := priv,
            wait_event := 0\<rparr>)"

text \<open>
  \<^verbatim>\<open>riscv32_handle_ip\<close>, lines 309-329: the loop over \<open>i = 11, 10, ..., 1\<close>.
  \<open>handle_ip_loop vm wfi i\<close> runs the iterations \<open>i, i - 1, ..., 1\<close>.
\<close>

fun handle_ip_loop :: "riscv32_vm_state_t \<Rightarrow> bool \<Rightarrow> nat \<Rightarrow> bool \<times> riscv32_vm_state_t" where
  "handle_ip_loop vm wfi 0 = (False, vm)"
| "handle_ip_loop vm wfi (Suc n) =
     (let i = Suc n;
          imask = (push_bit i 1 :: u32)
      in if ip (csr vm) AND imask \<noteq> 0 then
           (let priv = (of_nat i AND 3 :: u8);
                iallow = (priv_mode vm < priv);
                iallow = (if \<not> iallow
                          then priv = priv_mode vm \<and>
                               (status (csr vm) AND push_bit (unat priv) 1 \<noteq> 0 \<or> wfi)
                          else iallow)
            in if ie (csr vm) AND imask \<noteq> 0 \<and> iallow then
                 (let vm1 = (if wfi
                             then (riscv32i_write_register_u vm REGISTER_PC
                                     (riscv32i_read_register_u vm REGISTER_PC + 4))
                                  \<lparr>ev_trap := True\<rparr>
                             else vm)
                  in (True, riscv32_perform_interrupt vm1 (of_nat i)))
               else handle_ip_loop vm wfi n)
         else handle_ip_loop vm wfi n)"

definition riscv32_handle_ip :: "riscv32_vm_state_t \<Rightarrow> bool \<Rightarrow> bool \<times> riscv32_vm_state_t" where
  "riscv32_handle_ip vm wfi =
     (if ip (csr vm) \<noteq> 0 then handle_ip_loop vm wfi 11 else (False, vm))"

text \<open>\<^verbatim>\<open>riscv32_trap_jump\<close>, lines 424-429.  The sum is stored into a 32-bit register.\<close>

definition riscv32_trap_jump :: "riscv32_vm_state_t \<Rightarrow> riscv32_vm_state_t" where
  "riscv32_trap_jump vm =
     (let pc = tvec (csr vm) (priv_mode vm) AND NOT 3;
          pc = (if tvec (csr vm) (priv_mode vm) AND 1 \<noteq> 0
                then pc + push_bit 2 (cause (csr vm) (priv_mode vm))
                else pc)
      in riscv32i_write_register_u vm REGISTER_PC pc)"

text \<open>
  One pass of the body of the loop of \<^verbatim>\<open>riscv32_run_impl\<close> (lines 439-455), after
  \<^verbatim>\<open>riscv32_run_till_event\<close> has returned.
\<close>

definition run_event :: "riscv32_vm_state_t \<Rightarrow> riscv32_vm_state_t" where
  "run_event vm =
     (if ev_trap vm then riscv32_trap_jump (vm\<lparr>ev_trap := False\<rparr>)
      else if ev_int vm then
        (let cs = csr vm;
             ip1 = ip cs OR ev_int_mask vm;
             ip2 = (if ip1 AND push_bit INTERRUPT_MTIMER 1 \<noteq> 0
                    then (if \<not> rvtimer_pending (timer vm)
                          then ip1 AND NOT (push_bit INTERRUPT_MTIMER 1)
                          else ip1)
                    else ip1);
             vm1 = vm\<lparr>csr := cs\<lparr>ip := ip2\<rparr>, ev_int := False\<rparr>
         in case riscv32_handle_ip vm1 False of
              (True, vm2) \<Rightarrow> riscv32_trap_jump vm2
            | (False, vm2) \<Rightarrow> vm2)
      else vm)"

section \<open>The global hart registry (riscv32.c, threading.c)\<close>

text \<open>
  Pointers are addresses; \<open>None\<close> is \<^verbatim>\<open>NULL\<close>.  The process-wide variables of
  \<^verbatim>\<open>riscv32.c\<close> form one record, together with the store of the live
  \<^verbatim>\<open>riscv32_vm_state_t\<close> objects and the list of the threads that
  \<^verbatim>\<open>pthread_cancel\<close> has been called on.  \<^verbatim>\<open>global_vm_count\<close> is a \<^verbatim>\<open>size_t\<close>
  that is only ever incremented; it is a natural number here.  The spinlock is
  taken and released around the bodies and is not modelled.
\<close>

type_synonym vm_ptr = nat
type_synonym thread_handle_t = nat

datatype error = NullPointer | DanglingPointer | OutOfBounds | AssertionFailed

definition MAX_VMS :: nat where "MAX_VMS = 256"

record global_state =
  global_vm_list :: "nat \<Rightarrow> vm_ptr option"
  global_vm_count :: nat
  global_irq_thread :: "thread_handle_t option"
  global_screen_count :: nat
  global_init :: bool
  heap :: "vm_ptr \<Rightarrow> riscv32_vm_state_t option"
  cancelled :: "thread_handle_t list"

text \<open>\<^verbatim>\<open>thread_kill\<close>, threading.c lines 57-66.\<close>

definition thread_kill :: "global_state \<Rightarrow> thread_handle_t option \<Rightarrow> global_state" where
  "thread_kill g handle =
     (case handle of
        None \<Rightarrow> g
      | Some h \<Rightarrow> g\<lparr>cancelled := h # cancelled g\<rparr>)"

text \<open>\<^verbatim>\<open>register_vm\<close>, lines 107-119.\<close>

definition register_vm :: "global_state \<Rightarrow> vm_ptr \<Rightarrow> u32 \<Rightarrow> error + (bool \<times> global_state)" where
  "register_vm g vm hid =
     (if of_nat MAX_VMS \<le> hid then Inr (False, g)
      else case heap g vm of
        None \<Rightarrow> Inl DanglingPointer
      | Some s \<Rightarrow>
          Inr (True,
               g\<lparr>global_vm_list := (global_vm_list g)(unat hid := Some vm),
                 heap := (heap g)(vm \<mapsto> s\<lparr>csr := (csr s)\<lparr>hartid := hid\<rparr>\<rparr>),
                 global_vm_count := global_vm_count g + 1\<rparr>))"

text \<open>\<^verbatim>\<open>deregister_vm\<close>, lines 121-129.\<close>

definition deregister_vm :: "global_state \<Rightarrow> vm_ptr \<Rightarrow> error + global_state" where
  "deregister_vm g vm =
     (case heap g vm of
        None \<Rightarrow> Inl DanglingPointer
      | Some s \<Rightarrow>
          (let g1 = g\<lparr>global_vm_list := (global_vm_list g)(unat (hartid (csr s)) := None)\<rparr>
           in Inr (if global_vm_count g1 = 0
                   then thread_kill g1 (global_irq_thread g1)
                   else g1)))"

text \<open>The object \<^verbatim>\<open>calloc\<close> returns: every member zero.\<close>

definition csr_calloc :: riscv32_csr_t where
  "csr_calloc =
     \<lparr>status = 0, edeleg = (\<lambda>_. 0), ideleg = (\<lambda>_. 0), ie = 0, tvec = (\<lambda>_. 0),
      counteren = (\<lambda>_. 0), scratch = (\<lambda>_. 0), epc = (\<lambda>_. 0), cause = (\<lambda>_. 0),
      tval = (\<lambda>_. 0), ip = 0, hartid = 0\<rparr>"

definition vm_calloc :: riscv32_vm_state_t where
  "vm_calloc =
     \<lparr>wait_event = 0, registers = (\<lambda>_. 0), mem_begin = 0, csr = csr_calloc,
      root_page_table = 0, mmu_virtual = False, priv_mode = 0,
      timer = \<lparr>freq = 0, time = 0, timecmp = 0\<rparr>,
      ev_trap = False, ev_int = False, ev_int_mask = 0\<rparr>"

text \<open>
  Lines 188-193 of \<^verbatim>\<open>riscv32_create_vm\<close>: the first non-\<^verbatim>\<open>NULL\<close> slot among
  \<open>i, i + 1, ..., MAX_VMS - 1\<close>, with \<open>n\<close> the number of slots left to look at.
\<close>

fun find_parent :: "(nat \<Rightarrow> vm_ptr option) \<Rightarrow> nat \<Rightarrow> nat \<Rightarrow> vm_ptr option" where
  "find_parent l i 0 = None"
| "find_parent l i (Suc n) =
     (case l i of Some p \<Rightarrow> Some p | None \<Rightarrow> find_parent l (Suc i) n)"

text \<open>
  Lines 219-234 of \<^verbatim>\<open>riscv32_create_vm\<close>, the part both branches share: the timer,
  the initial privilege, the Hypervisor delegation slots, the PC, and the
  registration; \<^verbatim>\<open>err:\<close> frees the object.
\<close>

definition create_vm_finish ::
  "global_state \<Rightarrow> vm_ptr \<Rightarrow> u32 \<Rightarrow> error + (vm_ptr option \<times> global_state)" where
  "create_vm_finish g vm hid =
     (case heap g vm of
        None \<Rightarrow> Inl DanglingPointer
      | Some s \<Rightarrow>
          (let cs = csr s;
               s1 = s\<lparr>timer := rvtimer_init (timer s) 10000000,
                      mmu_virtual := False,
                      priv_mode := PRIVILEGE_MACHINE,
                      csr := cs\<lparr>edeleg := (edeleg cs)(PRIVILEGE_HYPERVISOR := 0xFFFFFFFF),
                                 ideleg := (ideleg cs)(PRIVILEGE_HYPERVISOR := 0xFFFFFFFF)\<rparr>,
                      registers := (registers s)(REGISTER_PC := mem_begin s)\<rparr>;
               g1 = g\<lparr>heap := (heap g)(vm \<mapsto> s1)\<rparr>
           in case register_vm g1 vm hid of
                Inl e \<Rightarrow> Inl e
              | Inr (True, g2) \<Rightarrow> Inr (Some vm, g2)
              | Inr (False, g2) \<Rightarrow> Inr (None, g2\<lparr>heap := (heap g2)(vm := None)\<rparr>)))"

text \<open>
  \<^verbatim>\<open>riscv32_create_vm\<close>, lines 155-239.  What the environment decides is passed in:
  \<open>alloc\<close> is the result of \<^verbatim>\<open>calloc\<close>, \<open>dev_ok\<close> says whether
  \<^verbatim>\<open>riscv32_init_phys_mem\<close> succeeds inside \<^verbatim>\<open>devices_init\<close> (lines 131-153, which
  on success place the memory at \<open>0x80000000\<close> and take one screen), and \<open>th\<close> is
  the handle \<^verbatim>\<open>thread_create\<close> returns for the IRQ thread.  The CSR tables and
  the MMIO regions are set up in files that are not among the sources and are
  left out.  A later hart copies \<^verbatim>\<open>mem\<close> from the first registered hart,
  dereferencing \<^verbatim>\<open>parent_vm\<close> without a check.
\<close>

definition riscv32_create_vm ::
  "global_state \<Rightarrow> u32 \<Rightarrow> vm_ptr option \<Rightarrow> bool \<Rightarrow> thread_handle_t option
     \<Rightarrow> error + (vm_ptr option \<times> global_state)" where
  "riscv32_create_vm g hid alloc dev_ok th =
     (if of_nat MAX_VMS \<le> hid then Inr (None, g)
      else case alloc of
        None \<Rightarrow> Inr (None, g)
      | Some vm \<Rightarrow>
          (let g0 = g\<lparr>heap := (heap g)(vm \<mapsto> vm_calloc)\<rparr>
           in if \<not> global_init g0 then
                (if \<not> dev_ok then Inr (None, g0\<lparr>heap := (heap g0)(vm := None)\<rparr>)
                 else create_vm_finish
                        (g0\<lparr>heap := (heap g0)(vm \<mapsto> vm_calloc\<lparr>mem_begin := 0x80000000\<rparr>),
                            global_screen_count := global_screen_count g0 + 1,
                            global_irq_thread := th,
                            global_init := True\<rparr>) vm hid)
              else
                (case find_parent (global_vm_list g0) 0 MAX_VMS of
                   None \<Rightarrow> Inl NullPointer
                 | Some parent \<Rightarrow>
                     (case heap g0 parent of
                        None \<Rightarrow> Inl DanglingPointer
                      | Some ps \<Rightarrow>
                          create_vm_finish
                            (g0\<lparr>heap := (heap g0)(vm \<mapsto> vm_calloc\<lparr>mem_begin := mem_begin ps\<rparr>)\<rparr>)
                            vm hid))))"

text \<open>
  \<^verbatim>\<open>riscv32_destroy_vm\<close>, lines 241-249: deregistration, then the object is freed
  (the MMIO and memory teardown are in files that are not among the sources).
\<close>

definition riscv32_destroy_vm :: "global_state \<Rightarrow> vm_ptr \<Rightarrow> error + global_state" where
  "riscv32_destroy_vm g vm =
     (case deregister_vm g vm of
        Inl e \<Rightarrow> Inl e
      | Inr g1 \<Rightarrow> Inr (g1\<lparr>heap := (heap g1)(vm := None)\<rparr>))"

text \<open>The state of the process before the first call of \<^verbatim>\<open>riscv32_create_vm\<close>.\<close>

definition global_boot :: global_state where
  "global_boot =
     \<lparr>global_vm_list = (\<lambda>_. None), global_vm_count = 0, global_irq_thread = None,
      global_screen_count = 0, global_init = False, heap = (\<lambda>_. None), cancelled = []\<rparr>"

section \<open>The ATA device (devices/ata.c)\<close>

definition ATA_REG_DATA :: u32 where "ATA_REG_DATA = 0"
definition ATA_REG_ERR :: u32 where "ATA_REG_ERR = 1"
definition ATA_REG_NSECT :: u32 where "ATA_REG_NSECT = 2"
definition ATA_REG_LBAL :: u32 where "ATA_REG_LBAL = 3"
definition ATA_REG_LBAM :: u32 where "ATA_REG_LBAM = 4"
definition ATA_REG_LBAH :: u32 where "ATA_REG_LBAH = 5"
definition ATA_REG_DEVICE :: u32 where "ATA_REG_DEVICE = 6"
definition ATA_REG_STATUS :: u32 where "ATA_REG_STATUS = 7"
definition ATA_REG_SHIFT :: nat where "ATA_REG_SHIFT = 2"

definition ATA_ERR_AMNF :: u16 where "ATA_ERR_AMNF = 1"
definition ATA_ERR_ABRT :: u16 where "ATA_ERR_ABRT = 4"
definition ATA_ERR_UNC :: u16 where "ATA_ERR_UNC = 64"

definition ATA_STATUS_ERR :: u8 where "ATA_STATUS_ERR = 1"
definition ATA_STATUS_DRQ :: u8 where "ATA_STATUS_DRQ = 8"
definition ATA_STATUS_SRV :: u8 where "ATA_STATUS_SRV = 16"
definition ATA_STATUS_RDY :: u8 where "ATA_STATUS_RDY = 64"

definition ATA_CMD_IDENTIFY :: u8 where "ATA_CMD_IDENTIFY = 0xEC"
definition ATA_CMD_INITIALIZE_DEVICE_PARAMS :: u8 where "ATA_CMD_INITIALIZE_DEVICE_PARAMS = 0x91"
definition ATA_CMD_READ_SECTORS :: u8 where "ATA_CMD_READ_SECTORS = 0x20"
definition ATA_CMD_WRITE_SECTORS :: u8 where "ATA_CMD_WRITE_SECTORS = 0x30"

definition SECTOR_SIZE :: nat where "SECTOR_SIZE = 512"

definition DIV_ROUND_UP :: "nat \<Rightarrow> nat \<Rightarrow> nat" where
  "DIV_ROUND_UP x d = (x + d - 1) div d"

text \<open>
  Modelled from the spec: \<^verbatim>\<open>riscv32_mmu.h\<close>, which defines the access codes, is not
  among the sources; the spec's handler contract has \<open>access \<in> {read, write}\<close>.
\<close>

datatype mmu_access = MMU_READ | MMU_WRITE

text \<open>
  A \<^verbatim>\<open>FILE *\<close> of the C library: the bytes of the image, the stream position,
  whether the stream can be positioned (\<^verbatim>\<open>ftell\<close> and \<^verbatim>\<open>fseek\<close> fail on one that
  cannot) and whether it can be written.  \<open>None\<close> is \<^verbatim>\<open>NULL\<close>; handing \<^verbatim>\<open>NULL\<close>
  to a stream function is the error \<open>NullPointer\<close>.
\<close>

record ata_file =
  content :: "u8 list"
  pos :: nat
  seekable :: bool
  writable :: bool

text \<open>One element of \<^verbatim>\<open>ata_dev.drive\<close>; the members carry the prefix \<open>d_\<close>.\<close>

record ata_drive =
  d_fp :: "ata_file option"
  d_size :: nat
  d_bytes_to_rw :: u16
  d_sectcount :: u16
  d_lbal :: u16
  d_lbam :: u16
  d_lbah :: u16
  d_drive :: u16
  d_error :: u16
  d_status :: u8
  d_hob_shift :: u8
  d_buf :: "u8 list"

record ata_dev =
  drive :: "u8 \<Rightarrow> ata_drive"
  curdrive :: u8

text \<open>\<open>cur\<close> reads and \<open>set_cur\<close> writes \<^verbatim>\<open>ata->drive[ata->curdrive]\<close>.\<close>

definition cur :: "ata_dev \<Rightarrow> ata_drive" where
  "cur ata = drive ata (curdrive ata)"

definition set_cur :: "ata_dev \<Rightarrow> ata_drive \<Rightarrow> ata_dev" where
  "set_cur ata d = ata\<lparr>drive := (drive ata)(curdrive ata := d)\<rparr>"

text \<open>\<^verbatim>\<open>ata_get_lba\<close>, lines 89-104, for \<^verbatim>\<open>is48bit == false\<close> as both callers pass it.\<close>

definition ata_get_lba :: "ata_dev \<Rightarrow> u64" where
  "ata_get_lba ata =
     ucast (bit_cut (ucast (d_lbal (cur ata))) 0 8
            OR push_bit 8 (bit_cut (ucast (d_lbam (cur ata))) 0 8)
            OR push_bit 16 (bit_cut (ucast (d_lbah (cur ata))) 0 8)
            OR push_bit 24 (bit_cut (ucast (d_drive (cur ata))) 0 4))"

text \<open>The initializer of \<^verbatim>\<open>id_buf\<close>, lines 108-130, and its bytes on a little-endian host.\<close>

definition id_buf :: "nat \<Rightarrow> u16 list" where
  "id_buf sz =
     (let lo = (if 0xffffffff < sz then 0xffff else of_nat (sz mod 65536));
          hi = (if 0xffffffff < sz then 0xffff else of_nat (sz div 65536))
      in (replicate (SECTOR_SIZE div 2) 0)
           [0 := 64, 1 := 65535, 3 := 16, 6 := 63, 22 := 4, 47 := 0, 49 := 512,
            50 := 16384, 51 := 1024, 53 := 3, 54 := 65535, 55 := 16, 56 := 63,
            57 := lo, 58 := hi, 60 := lo, 61 := hi, 64 := 3, 67 := 1, 68 := 1])"

definition bytes_of_u16s :: "u16 list \<Rightarrow> u8 list" where
  "bytes_of_u16s ws = concat (map (\<lambda>w. [ucast w, ucast (drop_bit 8 w)]) ws)"

text \<open>\<^verbatim>\<open>ata_cmd_identify\<close>, lines 106-136.\<close>

definition ata_cmd_identify :: "ata_dev \<Rightarrow> ata_dev" where
  "ata_cmd_identify ata =
     set_cur ata ((cur ata)\<lparr>d_buf := bytes_of_u16s (id_buf (d_size (cur ata))),
                            d_bytes_to_rw := 512,
                            d_status := ATA_STATUS_RDY OR ATA_STATUS_SRV OR ATA_STATUS_DRQ,
                            d_sectcount := 1\<rparr>)"

text \<open>\<^verbatim>\<open>ata_cmd_initialize_device_params\<close>, lines 138-143.\<close>

definition ata_cmd_initialize_device_params :: "ata_dev \<Rightarrow> ata_dev" where
  "ata_cmd_initialize_device_params ata =
     set_cur ata ((cur ata)\<lparr>d_status := d_status (cur ata) OR ATA_STATUS_ERR,
                            d_error := d_error (cur ata) OR ATA_ERR_ABRT\<rparr>)"

text \<open>
  \<^verbatim>\<open>ata_read_buf\<close>, lines 146-158: \<^verbatim>\<open>fread\<close> of one sector.  A short read leaves
  the bytes it got in the buffer and reports failure.
\<close>

definition ata_read_buf :: "ata_dev \<Rightarrow> error + (bool \<times> ata_dev)" where
  "ata_read_buf ata =
     (case d_fp (cur ata) of
        None \<Rightarrow> Inl NullPointer
      | Some f \<Rightarrow>
          (let got = take SECTOR_SIZE (drop (pos f) (content f));
               d1 = (cur ata)\<lparr>d_fp := Some (f\<lparr>pos := pos f + length got\<rparr>),
                              d_buf := got @ drop (length got) (d_buf (cur ata))\<rparr>
           in if length got \<noteq> SECTOR_SIZE then Inr (False, set_cur ata d1)
              else Inr (True, set_cur ata (d1\<lparr>d_bytes_to_rw := 512\<rparr>))))"

text \<open>
  \<^verbatim>\<open>ata_write_buf\<close>, lines 161-172: \<^verbatim>\<open>fwrite\<close> of one sector at the stream
  position, which fails on a stream that cannot be written.
\<close>

definition ata_write_buf :: "ata_dev \<Rightarrow> error + (bool \<times> ata_dev)" where
  "ata_write_buf ata =
     (case d_fp (cur ata) of
        None \<Rightarrow> Inl NullPointer
      | Some f \<Rightarrow>
          (if \<not> writable f then Inr (False, ata)
           else
             (let old = content f @ replicate (pos f - length (content f)) 0;
                  f1 = f\<lparr>content := take (pos f) old @ take SECTOR_SIZE (d_buf (cur ata))
                                       @ drop (pos f + SECTOR_SIZE) old,
                         pos := pos f + SECTOR_SIZE\<rparr>
              in Inr (True, set_cur ata ((cur ata)\<lparr>d_fp := Some f1\<rparr>)))))"

text \<open>The \<^verbatim>\<open>err:\<close> label of the two sector commands.\<close>

definition ata_set_unc :: "ata_dev \<Rightarrow> ata_dev" where
  "ata_set_unc ata =
     set_cur ata ((cur ata)\<lparr>d_status := d_status (cur ata) OR ATA_STATUS_ERR,
                            d_error := d_error (cur ata) OR ATA_ERR_UNC\<rparr>)"

text \<open>\<^verbatim>\<open>fseek(fp, off, SEEK_SET)\<close> on the current drive; \<open>False\<close> is a negative result.\<close>

definition ata_seek :: "ata_dev \<Rightarrow> nat \<Rightarrow> error + (bool \<times> ata_dev)" where
  "ata_seek ata off =
     (case d_fp (cur ata) of
        None \<Rightarrow> Inl NullPointer
      | Some f \<Rightarrow>
          (if \<not> seekable f then Inr (False, ata)
           else Inr (True, set_cur ata ((cur ata)\<lparr>d_fp := Some (f\<lparr>pos := off\<rparr>)\<rparr>))))"

text \<open>\<^verbatim>\<open>ata_cmd_read_sectors\<close>, lines 174-198.\<close>

definition ata_cmd_read_sectors :: "ata_dev \<Rightarrow> error + ata_dev" where
  "ata_cmd_read_sectors ata =
     (let a1 = (if d_sectcount (cur ata) = 0
                then set_cur ata ((cur ata)\<lparr>d_sectcount := 256\<rparr>) else ata);
          a2 = set_cur a1 ((cur a1)\<lparr>d_status := d_status (cur a1)
                                        OR ATA_STATUS_DRQ OR ATA_STATUS_RDY\<rparr>)
      in case ata_seek a2 (unat (ata_get_lba a2) * SECTOR_SIZE) of
           Inl e \<Rightarrow> Inl e
         | Inr (False, a3) \<Rightarrow> Inr (ata_set_unc a3)
         | Inr (True, a3) \<Rightarrow>
             (case ata_read_buf a3 of
                Inl e \<Rightarrow> Inl e
              | Inr (False, a4) \<Rightarrow> Inr (ata_set_unc a4)
              | Inr (True, a4) \<Rightarrow> Inr a4))"

text \<open>\<^verbatim>\<open>ata_cmd_write_sectors\<close>, lines 200-220.\<close>

definition ata_cmd_write_sectors :: "ata_dev \<Rightarrow> error + ata_dev" where
  "ata_cmd_write_sectors ata =
     (let a1 = (if d_sectcount (cur ata) = 0
                then set_cur ata ((cur ata)\<lparr>d_sectcount := 256\<rparr>) else ata);
          a2 = set_cur a1 ((cur a1)\<lparr>d_status := d_status (cur a1)
                                        OR ATA_STATUS_DRQ OR ATA_STATUS_RDY\<rparr>)
      in case ata_seek a2 (unat (ata_get_lba a2) * SECTOR_SIZE) of
           Inl e \<Rightarrow> Inl e
         | Inr (False, a3) \<Rightarrow> Inr (ata_set_unc a3)
         | Inr (True, a3) \<Rightarrow> Inr (set_cur a3 ((cur a3)\<lparr>d_bytes_to_rw := 512\<rparr>)))"

text \<open>\<^verbatim>\<open>ata_handle_cmd\<close>, lines 222-231.\<close>

definition ata_handle_cmd :: "ata_dev \<Rightarrow> u8 \<Rightarrow> error + ata_dev" where
  "ata_handle_cmd ata cmd =
     (if cmd = ATA_CMD_IDENTIFY then Inr (ata_cmd_identify ata)
      else if cmd = ATA_CMD_INITIALIZE_DEVICE_PARAMS
        then Inr (ata_cmd_initialize_device_params ata)
      else if cmd = ATA_CMD_READ_SECTORS then ata_cmd_read_sectors ata
      else if cmd = ATA_CMD_WRITE_SECTORS then ata_cmd_write_sectors ata
      else Inr ata)"

text \<open>
  The \<^verbatim>\<open>ATA_REG_DATA\<close> case of \<^verbatim>\<open>ata_data_mmio_handler\<close> for a write, lines 259-274.
  The \<^verbatim>\<open>memcpy\<close> starts at \<^verbatim>\<open>buf + SECTOR_SIZE - bytes_to_rw\<close>; one that would leave
  the 512 bytes of \<^verbatim>\<open>buf\<close> is the error \<open>OutOfBounds\<close>.
\<close>

definition ata_data_write :: "ata_dev \<Rightarrow> u8 list \<Rightarrow> u32 \<Rightarrow> error + (bool \<times> u8 list \<times> ata_dev)" where
  "ata_data_write ata memory_data sz =
     (let d = cur ata; btr = unat (d_bytes_to_rw d); n = unat sz
      in if SECTOR_SIZE < btr \<or> btr < n then Inl OutOfBounds
         else
           (let start = SECTOR_SIZE - btr;
                d1 = d\<lparr>d_buf := take start (d_buf d) @ take n memory_data
                                   @ drop (start + n) (d_buf d),
                       d_bytes_to_rw := d_bytes_to_rw d - ucast sz\<rparr>
            in if d_bytes_to_rw d1 = 0 then
                 (let d2 = d1\<lparr>d_status := d_status d1 AND NOT ATA_STATUS_DRQ\<rparr>;
                      d3 = d2\<lparr>d_sectcount := d_sectcount d2 - 1\<rparr>;
                      d4 = (if d_sectcount d3 \<noteq> 0
                            then d3\<lparr>d_status := d_status d3 OR ATA_STATUS_DRQ,
                                    d_bytes_to_rw := 512\<rparr>
                            else d3)
                  in case ata_write_buf (set_cur ata d4) of
                       Inl e \<Rightarrow> Inl e
                     | Inr (False, a) \<Rightarrow> Inr (True, memory_data, ata_set_unc a)
                     | Inr (True, a) \<Rightarrow> Inr (True, memory_data, a))
               else Inr (True, memory_data, set_cur ata d1)))"

text \<open>The \<^verbatim>\<open>ATA_REG_DATA\<close> case for a read, lines 275-301.\<close>

definition ata_data_read :: "ata_dev \<Rightarrow> u8 list \<Rightarrow> u32 \<Rightarrow> error + (bool \<times> u8 list \<times> ata_dev)" where
  "ata_data_read ata memory_data sz =
     (let d = cur ata; btr = unat (d_bytes_to_rw d); n = unat sz
      in if d_bytes_to_rw d \<noteq> 0 then
           (if SECTOR_SIZE < btr \<or> btr < n then Inl OutOfBounds
            else
              (let start = SECTOR_SIZE - btr;
                   md = take n (drop start (d_buf d)) @ drop n memory_data;
                   d1 = d\<lparr>d_bytes_to_rw := d_bytes_to_rw d - ucast sz\<rparr>
               in if d_bytes_to_rw d1 = 0 then
                    (let d2 = d1\<lparr>d_status := d_status d1 AND NOT ATA_STATUS_DRQ\<rparr>;
                         d3 = d2\<lparr>d_sectcount := d_sectcount d2 - 1\<rparr>
                     in if d_sectcount d3 \<noteq> 0 then
                          (case ata_read_buf
                                  (set_cur ata (d3\<lparr>d_status := d_status d3 OR ATA_STATUS_DRQ\<rparr>)) of
                             Inl e \<Rightarrow> Inl e
                           | Inr (False, a) \<Rightarrow> Inr (True, md, ata_set_unc a)
                           | Inr (True, a) \<Rightarrow> Inr (True, md, a))
                        else Inr (True, md, set_cur ata d3))
                  else Inr (True, md, set_cur ata d1)))
         else Inr (True, replicate n 0 @ drop n memory_data, ata))"

text \<open>
  \<^verbatim>\<open>ata_data_mmio_handler\<close>, lines 233-371.  \<open>memory_data\<close> holds the bytes the
  pointer of that name points to and is returned as the handler leaves them; by
  the handler contract it has at least \<open>size\<close> bytes, and a shorter one is the
  error \<open>OutOfBounds\<close>.  The one-byte registers read and write its first byte.
\<close>

definition ata_data_mmio_handler ::
  "ata_dev \<Rightarrow> u32 \<Rightarrow> u8 list \<Rightarrow> u32 \<Rightarrow> mmu_access \<Rightarrow> error + (bool \<times> u8 list \<times> ata_dev)" where
  "ata_data_mmio_handler ata offset memory_data sz access =
     (if offset AND (push_bit ATA_REG_SHIFT 1 - 1) \<noteq> 0 then Inr (False, memory_data, ata)
      else
        (let off = drop_bit ATA_REG_SHIFT offset;
             d = cur ata;
             b = hd memory_data;
             put = (\<lambda>v. v # tl memory_data)
         in if sz \<noteq> 1 \<and> off \<noteq> ATA_REG_DATA then Inr (False, memory_data, ata)
            else if length memory_data < unat sz then Inl OutOfBounds
            else if off = ATA_REG_DATA then
              (if access = MMU_WRITE then ata_data_write ata memory_data sz
               else ata_data_read ata memory_data sz)
            else if off = ATA_REG_ERR then
              (if access = MMU_WRITE then Inr (True, memory_data, ata)
               else Inr (True, put (ucast (d_error d)), ata))
            else if off = ATA_REG_NSECT then
              (if access = MMU_WRITE
               then Inr (True, memory_data,
                         set_cur ata (d\<lparr>d_sectcount := push_bit 8 (d_sectcount d) OR ucast b\<rparr>))
               else Inr (True, put (ucast (drop_bit (unat (d_hob_shift d)) (d_sectcount d) AND 0xff)),
                         ata))
            else if off = ATA_REG_LBAL then
              (if access = MMU_WRITE
               then Inr (True, memory_data,
                         set_cur ata (d\<lparr>d_lbal := push_bit 8 (d_lbal d) OR ucast b\<rparr>))
               else Inr (True, put (ucast (drop_bit (unat (d_hob_shift d)) (d_lbal d) AND 0xff)),
                         ata))
            else if off = ATA_REG_LBAM then
              (if access = MMU_WRITE
               then Inr (True, memory_data,
                         set_cur ata (d\<lparr>d_lbam := push_bit 8 (d_lbam d) OR ucast b\<rparr>))
               else Inr (True, put (ucast (drop_bit (unat (d_hob_shift d)) (d_lbam d) AND 0xff)),
                         ata))
            else if off = ATA_REG_LBAH then
              (if access = MMU_WRITE
               then Inr (True, memory_data,
                         set_cur ata (d\<lparr>d_lbah := push_bit 8 (d_lbah d) OR ucast b\<rparr>))
               else Inr (True, put (ucast (drop_bit (unat (d_hob_shift d)) (d_lbah d) AND 0xff)),
                         ata))
            else if off = ATA_REG_DEVICE then
              (if access = MMU_WRITE
               then (let a1 = ata\<lparr>curdrive := (if bit_check (ucast b) 4 then 1 else 0)\<rparr>
                     in Inr (True, memory_data, set_cur a1 ((cur a1)\<lparr>d_drive := ucast b\<rparr>)))
               else Inr (True, put (ucast (d_drive d OR 32 OR 128)), ata))
            else if off = ATA_REG_STATUS then
              (if access = MMU_WRITE
               then (case ata_handle_cmd
                            (set_cur ata (d\<lparr>d_error := 0,
                                            d_status := d_status d AND NOT ATA_STATUS_ERR\<rparr>)) b of
                       Inl e \<Rightarrow> Inl e
                     | Inr a \<Rightarrow> Inr (True, memory_data, a))
               else Inr (True, put (d_status d), ata))
            else Inr (True, memory_data, ata)))"

text \<open>
  \<^verbatim>\<open>get_img_size\<close>, lines 425-440: the size \<^verbatim>\<open>ftell\<close> reports at the end of the
  stream, or 0 when it reports a negative value or 0; the stream is returned with
  the position the function leaves.
\<close>

definition get_img_size :: "ata_file option \<Rightarrow> error + (nat \<times> ata_file option)" where
  "get_img_size fp =
     (case fp of
        None \<Rightarrow> Inl NullPointer
      | Some f \<Rightarrow>
          (if \<not> seekable f then Inr (0, Some f)
           else if length (content f) = 0 then Inr (0, Some (f\<lparr>pos := 0\<rparr>))
           else Inr (length (content f), Some (f\<lparr>pos := 0\<rparr>))))"

text \<open>A drive after \<^verbatim>\<open>calloc\<close>.\<close>

definition drive_calloc :: ata_drive where
  "drive_calloc =
     \<lparr>d_fp = None, d_size = 0, d_bytes_to_rw = 0, d_sectcount = 0, d_lbal = 0, d_lbam = 0,
      d_lbah = 0, d_drive = 0, d_error = 0, d_status = 0, d_hob_shift = 0,
      d_buf = replicate SECTOR_SIZE 0\<rparr>"

text \<open>
  \<^verbatim>\<open>ata_init\<close>, lines 442-467, up to the registration of the two MMIO windows
  (\<^verbatim>\<open>riscv32_mmio_add_device\<close> is not among the sources).  The second call of
  \<^verbatim>\<open>get_img_size\<close> is given \<^verbatim>\<open>ata->drive[0].fp\<close> as line 452 has it.
\<close>

definition ata_init :: "ata_file option \<Rightarrow> ata_file option \<Rightarrow> error + ata_dev" where
  "ata_init master slave =
     (if master = None \<and> slave = None then Inl AssertionFailed
      else case get_img_size master of
        Inl e \<Rightarrow> Inl e
      | Inr (sz0, fp0) \<Rightarrow>
          (let size0 = DIV_ROUND_UP sz0 SECTOR_SIZE;
               fp0a = (if size0 = 0 then None else fp0)
           in case get_img_size fp0a of
                Inl e \<Rightarrow> Inl e
              | Inr (sz1, fp0b) \<Rightarrow>
                  (let size1 = DIV_ROUND_UP sz1 SECTOR_SIZE;
                       fp1 = (if size1 = 0 then None else slave)
                   in Inr \<lparr>drive = (\<lambda>_. drive_calloc)
                                     (0 := drive_calloc\<lparr>d_fp := fp0b, d_size := size0\<rparr>,
                                      1 := drive_calloc\<lparr>d_fp := fp1, d_size := size1\<rparr>),
                           curdrive = 0\<rparr>)))"

section \<open>Concrete states\<close>

text \<open>
  Harts built from the zeroed object, used to run the functions above on explicit
  inputs: User-mode harts whose Machine level delegates the illegal-instruction
  trap (\<open>vm_user_deleg\<close>) or whose every level delegates everything (\<open>vm_user_all\<close>),
  Machine-mode harts with a vectored trap
  vector (\<open>vm_machine\<close>, \<open>vm_mtimer\<close> with the timer interrupt pending), a hart in
  WFI with MIE clear (\<open>vm_wfi\<close>), and a hart woken by the IRQ thread while its timer
  has not expired (\<open>vm_irq_stale\<close>).
\<close>

definition vm_user_deleg :: riscv32_vm_state_t where
  "vm_user_deleg =
     vm_calloc\<lparr>priv_mode := PRIVILEGE_USER,
               registers := (\<lambda>_. 0)(REGISTER_PC := 0x80000010),
               csr := csr_calloc\<lparr>edeleg := (\<lambda>_. 0)(PRIVILEGE_MACHINE := 4,
                                                    PRIVILEGE_HYPERVISOR := 0xFFFFFFFF),
                                  status := 0xA\<rparr>\<rparr>"

definition vm_mtimer :: riscv32_vm_state_t where
  "vm_mtimer =
     vm_calloc\<lparr>priv_mode := PRIVILEGE_MACHINE,
               registers := (\<lambda>_. 0)(REGISTER_PC := 0x80000010),
               csr := csr_calloc\<lparr>ip := 0x80, ie := 0x80, status := 0x8,
                                  tvec := (\<lambda>_. 0)(PRIVILEGE_MACHINE := 0x80000101)\<rparr>\<rparr>"

definition vm_wfi :: riscv32_vm_state_t where
  "vm_wfi =
     vm_calloc\<lparr>priv_mode := PRIVILEGE_MACHINE,
               registers := (\<lambda>_. 0)(REGISTER_PC := 0x80000010),
               csr := csr_calloc\<lparr>ip := 0x80, ie := 0x80\<rparr>\<rparr>"

definition vm_user_all :: riscv32_vm_state_t where
  "vm_user_all =
     vm_calloc\<lparr>priv_mode := PRIVILEGE_USER,
               registers := (\<lambda>_. 0)(REGISTER_PC := 0x80000010),
               csr := csr_calloc\<lparr>edeleg := (\<lambda>_. 0xFFFFFFFF), status := 1\<rparr>\<rparr>"

definition vm_machine :: riscv32_vm_state_t where
  "vm_machine =
     vm_calloc\<lparr>priv_mode := PRIVILEGE_MACHINE,
               registers := (\<lambda>_. 0)(REGISTER_PC := 0x80000010),
               csr := csr_calloc\<lparr>status := 0x8,
                                  tvec := (\<lambda>_. 0)(PRIVILEGE_MACHINE := 0x80000101)\<rparr>\<rparr>"

definition vm_irq_stale :: riscv32_vm_state_t where
  "vm_irq_stale =
     vm_calloc\<lparr>priv_mode := PRIVILEGE_MACHINE,
               ev_int := True, ev_int_mask := 0x880,
               timer := \<lparr>freq = 10000000, time = 5, timecmp = 9\<rparr>,
               csr := csr_calloc\<lparr>ip := 0x2, ie := 0x880, status := 0x8\<rparr>\<rparr>"

text \<open>
  The hart \<^verbatim>\<open>riscv32_create_vm\<close> leaves when it creates hart 0 in a fresh process
  (\<open>vm_boot\<close>), and harts the guest has brought from there to a lower privilege
  after writing a delegation register: in User mode with the illegal-instruction
  trap delegated by Machine (\<open>vm_boot_user\<close>), and in Supervisor mode with the
  supervisor timer interrupt pending, enabled and delegated by Machine and SIE set
  (\<open>vm_s_irq5\<close>), or with the machine timer interrupt pending, enabled and
  delegated by Machine and SIE clear (\<open>vm_s_irq7\<close>).
\<close>

definition vm_boot :: riscv32_vm_state_t where
  "vm_boot =
     vm_calloc\<lparr>mem_begin := 0x80000000,
               timer := \<lparr>freq = 10000000, time = 0, timecmp = 0\<rparr>,
               priv_mode := PRIVILEGE_MACHINE,
               registers := (\<lambda>_. 0)(REGISTER_PC := 0x80000000),
               csr := csr_calloc\<lparr>edeleg := (\<lambda>_. 0)(PRIVILEGE_HYPERVISOR := 0xFFFFFFFF),
                                  ideleg := (\<lambda>_. 0)(PRIVILEGE_HYPERVISOR := 0xFFFFFFFF)\<rparr>\<rparr>"

definition vm_boot_user :: riscv32_vm_state_t where
  "vm_boot_user =
     vm_boot\<lparr>priv_mode := PRIVILEGE_USER,
             csr := (csr vm_boot)\<lparr>edeleg := (edeleg (csr vm_boot))(PRIVILEGE_MACHINE := 4)\<rparr>\<rparr>"

definition vm_s_irq5 :: riscv32_vm_state_t where
  "vm_s_irq5 =
     vm_boot\<lparr>priv_mode := PRIVILEGE_SUPERVISOR,
             csr := (csr vm_boot)\<lparr>ip := 0x20, ie := 0x20, status := 0x2,
                                   ideleg := (ideleg (csr vm_boot))(PRIVILEGE_MACHINE := 0x20)\<rparr>\<rparr>"

definition vm_s_irq7 :: riscv32_vm_state_t where
  "vm_s_irq7 =
     vm_boot\<lparr>priv_mode := PRIVILEGE_SUPERVISOR,
             csr := (csr vm_boot)\<lparr>ip := 0x80, ie := 0x80, status := 0,
                                   ideleg := (ideleg (csr vm_boot))(PRIVILEGE_MACHINE := 0x80)\<rparr>\<rparr>"

text \<open>
  A disk image of \<open>n\<close> zero bytes, and a device whose master drive is idle: no
  transfer in progress, status RDY and SRV.
\<close>

definition img :: "nat \<Rightarrow> ata_file" where
  "img n = \<lparr>content = replicate n 0, pos = 0, seekable = True, writable = True\<rparr>"

definition ata_idle :: ata_dev where
  "ata_idle = \<lparr>drive = (\<lambda>_. drive_calloc)
                         (0 := drive_calloc\<lparr>d_fp := Some (img 1024), d_size := 2,
                                             d_status := 80, d_error := 1, d_sectcount := 1\<rparr>),
               curdrive = 0\<rparr>"

section \<open>Evaluation on concrete states\<close>

text \<open>
  The loop of \<^verbatim>\<open>riscv32_handle_ip\<close> unrolled at a numeral, and the equations that
  evaluate the delivery functions on an explicit hart.
\<close>

lemmas priv_defs = PRIVILEGE_USER_def PRIVILEGE_SUPERVISOR_def PRIVILEGE_HYPERVISOR_def
  PRIVILEGE_MACHINE_def

lemma handle_ip_loop_numeral:
  "handle_ip_loop vm wfi (numeral k) =
     (let i = numeral k;
          imask = (push_bit i 1 :: u32)
      in if ip (csr vm) AND imask \<noteq> 0 then
           (let priv = (of_nat i AND 3 :: u8);
                iallow = (priv_mode vm < priv);
                iallow = (if \<not> iallow
                          then priv = priv_mode vm \<and>
                               (status (csr vm) AND push_bit (unat priv) 1 \<noteq> 0 \<or> wfi)
                          else iallow)
            in if ie (csr vm) AND imask \<noteq> 0 \<and> iallow then
                 (let vm1 = (if wfi
                             then (riscv32i_write_register_u vm REGISTER_PC
                                     (riscv32i_read_register_u vm REGISTER_PC + 4))
                                  \<lparr>ev_trap := True\<rparr>
                             else vm)
                  in (True, riscv32_perform_interrupt vm1 (of_nat i)))
               else handle_ip_loop vm wfi (pred_numeral k))
         else handle_ip_loop vm wfi (pred_numeral k))"
proof -
  obtain n where n: "numeral k = Suc n" "pred_numeral k = n"
    by (simp add: numeral_eq_Suc)
  show ?thesis
    by (simp only: n handle_ip_loop.simps)
qed

lemmas vm_eval = vm_calloc_def csr_calloc_def priv_defs REGISTER_PC_def INTERRUPT_MASK_def
  riscv32i_read_register_u_def riscv32i_write_register_u_def
  riscv32_perform_interrupt_def riscv32_trap_def save_status_def bit_replace_def bit_cut_def
  deleg_loop.simps riscv32_handle_ip_def handle_ip_loop_numeral Let_def

section \<open>Delegation of traps\<close>

lemma word_pred_facts:
  fixes lim priv :: u8
  assumes "lim < priv"
  shows "lim \<le> priv - 1" and "priv - 1 < priv"
proof -
  from assms have nz: "priv \<noteq> 0" by (auto simp: word_less_nat_alt)
  then have u: "unat (priv - 1) = unat priv - 1" by (simp add: unat_minus_one)
  from nz have "0 < unat priv" by (simp add: unat_gt_0)
  with assms u show "lim \<le> priv - 1" by (simp add: word_le_nat_alt word_less_nat_alt)
  from \<open>0 < unat priv\<close> u show "priv - 1 < priv" by (simp add: word_less_nat_alt)
qed

lemma deleg_loop_step:
  "lim < priv \<Longrightarrow> deleg priv AND push_bit (unat c) 1 \<noteq> 0 \<Longrightarrow>
     deleg_loop deleg c lim priv = deleg_loop deleg c lim (priv - 1)"
  by (subst deleg_loop.simps) simp

lemma deleg_loop_le:
  "lim \<le> s \<Longrightarrow> lim \<le> deleg_loop deleg c lim s \<and> deleg_loop deleg c lim s \<le> s"
proof (induction deleg c lim s rule: deleg_loop.induct)
  case (1 deleg c lim priv)
  show ?case
  proof (cases "lim < priv")
    case False
    with "1.prems" show ?thesis by (simp add: deleg_loop.simps)
  next
    case lt: True
    show ?thesis
    proof (cases "deleg priv AND push_bit (unat c) 1 = 0")
      case True
      with lt "1.prems" show ?thesis by (simp add: deleg_loop.simps)
    next
      case False
      from lt have le: "lim \<le> priv - 1" and lt': "priv - 1 < priv"
        by (rule word_pred_facts)+
      have eq: "deleg_loop deleg c lim priv = deleg_loop deleg c lim (priv - 1)"
        using lt False by (rule deleg_loop_step)
      from "1.IH"[OF lt False le] lt' show ?thesis
        by (auto simp: eq)
    qed
  qed
qed

lemma deleg_loop_above:
  "lim \<le> s \<Longrightarrow> deleg_loop deleg c lim s < q \<Longrightarrow> q \<le> s \<Longrightarrow>
     deleg q AND push_bit (unat c) 1 \<noteq> 0"
proof (induction deleg c lim s rule: deleg_loop.induct)
  case (1 deleg c lim priv)
  show ?case
  proof (cases "lim < priv")
    case False
    with "1.prems" show ?thesis by (simp add: deleg_loop.simps)
  next
    case lt: True
    show ?thesis
    proof (cases "deleg priv AND push_bit (unat c) 1 = 0")
      case True
      with lt "1.prems" show ?thesis by (simp add: deleg_loop.simps)
    next
      case False
      from lt have le: "lim \<le> priv - 1"
        by (rule word_pred_facts)
      have eq: "deleg_loop deleg c lim priv = deleg_loop deleg c lim (priv - 1)"
        using lt False by (rule deleg_loop_step)
      show ?thesis
      proof (cases "q = priv")
        case True
        with False show ?thesis by simp
      next
        case neq: False
        with "1.prems"(3) have "q < priv" by simp
        then have "q \<le> priv - 1" by (rule word_pred_facts)
        with "1.IH"[OF lt False le] "1.prems"(2) eq show ?thesis by simp
      qed
    qed
  qed
qed

lemma deleg_loop_stop:
  "deleg_loop deleg c lim s \<noteq> lim \<Longrightarrow> lim \<le> s \<Longrightarrow>
     deleg (deleg_loop deleg c lim s) AND push_bit (unat c) 1 = 0"
proof (induction deleg c lim s rule: deleg_loop.induct)
  case (1 deleg c lim priv)
  show ?case
  proof (cases "lim < priv")
    case False
    with "1.prems" show ?thesis by (simp add: deleg_loop.simps)
  next
    case lt: True
    show ?thesis
    proof (cases "deleg priv AND push_bit (unat c) 1 = 0")
      case True
      with lt show ?thesis by (simp add: deleg_loop.simps)
    next
      case False
      from lt have le: "lim \<le> priv - 1"
        by (rule word_pred_facts)
      have eq: "deleg_loop deleg c lim priv = deleg_loop deleg c lim (priv - 1)"
        using lt False by (rule deleg_loop_step)
      from "1.IH"[OF lt False _ le] "1.prems"(1) eq show ?thesis by simp
    qed
  qed
qed

lemma all_ones_bit:
  assumes "c < (32::u32)"
  shows "(0xFFFFFFFF::u32) AND push_bit (unat c) 1 \<noteq> 0"
proof -
  from assms have "unat c < 32" by (simp add: word_less_nat_alt)
  then have nz: "push_bit (unat c) (1::u32) \<noteq> 0"
    by (simp add: push_bit_of_1 exp_eq_zero_iff)
  have "(0xFFFFFFFF::u32) = - 1" by simp
  then have "(0xFFFFFFFF::u32) AND push_bit (unat c) 1 = push_bit (unat c) 1"
    by (simp only: word_bitwise_m1_simps)
  with nz show ?thesis by simp
qed

lemma priv_mode_trap:
  "priv_mode (riscv32_trap vm c tv) =
     deleg_loop (edeleg (csr vm)) c (priv_mode vm) PRIVILEGE_MACHINE"
  by (simp add: riscv32_trap_def Let_def)

text \<open>
  What \<^verbatim>\<open>riscv32_create_vm\<close> leaves in a hart it returns (lines 224-225): Machine
  mode, and the Hypervisor slot of \<open>edeleg\<close> all-ones.  \<^verbatim>\<open>riscv32_trap\<close> does not
  write \<open>edeleg\<close>.
\<close>

lemma create_vm_finish_state:
  assumes "create_vm_finish g v hid = Inr (Some v', g')"
  shows "v' = v \<and> (\<exists>s. heap g' v = Some s
           \<and> edeleg (csr s) PRIVILEGE_HYPERVISOR = 0xFFFFFFFF
           \<and> priv_mode s = PRIVILEGE_MACHINE)"
  using assms
  by (auto simp: create_vm_finish_def register_vm_def Let_def
      split: option.splits if_splits sum.splits prod.splits bool.splits)

lemma create_vm_state:
  assumes "riscv32_create_vm g hid alloc dev_ok th = Inr (Some v, g')"
  shows "\<exists>s. heap g' v = Some s
           \<and> edeleg (csr s) PRIVILEGE_HYPERVISOR = 0xFFFFFFFF
           \<and> priv_mode s = PRIVILEGE_MACHINE"
proof -
  from assms obtain g0 v0 where "create_vm_finish g0 v0 hid = Inr (Some v, g')"
    by (auto simp: riscv32_create_vm_def Let_def split: option.splits if_splits)
  from create_vm_finish_state[OF this] show ?thesis by auto
qed

lemma create_vm_boot:
  "\<exists>g'. riscv32_create_vm global_boot 0 (Some 1) True (Some 7) = Inr (Some 1, g')
      \<and> heap g' 1 = Some vm_boot"
  by (simp add: riscv32_create_vm_def create_vm_finish_def register_vm_def global_boot_def
      MAX_VMS_def Let_def vm_boot_def vm_calloc_def csr_calloc_def rvtimer_init_def)


lemma edeleg_trap: "edeleg (csr (riscv32_trap vm c tv)) = edeleg (csr vm)"
  by (simp add: riscv32_trap_def Let_def)

text \<open>
  C1.  For a trap that \<^verbatim>\<open>riscv32_trap\<close> delivers with cause \<open>c\<close>, the target privilege
  \<open>p\<close> is found by scanning from Machine down to the current mode and stopping at the
  first level whose \<open>edeleg\<close> does not contain bit \<open>c\<close>: \<open>p\<close> lies between the
  current mode and Machine, every level above \<open>p\<close> up to Machine delegates \<open>c\<close>, and
  \<open>p\<close> is the current mode or does not delegate \<open>c\<close>.  \<^verbatim>\<open>riscv32_create_vm\<close>
  initializes the Hypervisor slot of \<open>edeleg\<close> to all-ones and \<^verbatim>\<open>riscv32_trap\<close> leaves
  \<open>edeleg\<close> alone; with that slot all-ones, a trap on a hart in User, Supervisor or
  Machine mode is never taken in Hypervisor mode.
\<close>

theorem trap_target_privilege:
  assumes "priv_mode vm \<le> PRIVILEGE_MACHINE" and "c < 32"
    and "p = priv_mode (riscv32_trap vm c tv)"
    and "dbit = push_bit (unat c) 1"
  shows "priv_mode vm \<le> p \<and> p \<le> PRIVILEGE_MACHINE
     \<and> (\<forall>q. p < q \<and> q \<le> PRIVILEGE_MACHINE \<longrightarrow> edeleg (csr vm) q AND dbit \<noteq> 0)
     \<and> (p = priv_mode vm \<or> edeleg (csr vm) p AND dbit = 0)
     \<and> (riscv32_create_vm g hid alloc dev_ok th = Inr (Some v, g') \<longrightarrow>
          (\<exists>s. heap g' v = Some s
             \<and> edeleg (csr s) PRIVILEGE_HYPERVISOR = 0xFFFFFFFF
             \<and> priv_mode s = PRIVILEGE_MACHINE))
     \<and> edeleg (csr (riscv32_trap vm c tv)) = edeleg (csr vm)
     \<and> (edeleg (csr vm) PRIVILEGE_HYPERVISOR = 0xFFFFFFFF
          \<and> priv_mode vm \<noteq> PRIVILEGE_HYPERVISOR \<longrightarrow> p \<noteq> PRIVILEGE_HYPERVISOR)"
proof -
  let ?d = "edeleg (csr vm)"
  have p: "p = deleg_loop ?d c (priv_mode vm) PRIVILEGE_MACHINE"
    using assms(3) by (simp add: priv_mode_trap)
  have bounds: "priv_mode vm \<le> p \<and> p \<le> PRIVILEGE_MACHINE"
    unfolding p using assms(1) by (rule deleg_loop_le)
  have above: "\<forall>q. p < q \<and> q \<le> PRIVILEGE_MACHINE \<longrightarrow> ?d q AND dbit \<noteq> 0"
    unfolding p assms(4) using deleg_loop_above[OF assms(1)] by blast
  have stop: "p = priv_mode vm \<or> ?d p AND dbit = 0"
    unfolding p assms(4) using deleg_loop_stop[OF _ assms(1)] by blast
  have created: "\<exists>s. heap g' v = Some s
             \<and> edeleg (csr s) PRIVILEGE_HYPERVISOR = 0xFFFFFFFF
             \<and> priv_mode s = PRIVILEGE_MACHINE"
    if "riscv32_create_vm g hid alloc dev_ok th = Inr (Some v, g')"
    using that by (rule create_vm_state)
  have nohyp: "p \<noteq> PRIVILEGE_HYPERVISOR"
    if "?d PRIVILEGE_HYPERVISOR = 0xFFFFFFFF" and "priv_mode vm \<noteq> PRIVILEGE_HYPERVISOR"
  proof
    assume "p = PRIVILEGE_HYPERVISOR"
    with stop that have "(0xFFFFFFFF::u32) AND dbit = 0" by auto
    with all_ones_bit[OF assms(2)] show False by (simp add: assms(4))
  qed
  from bounds above stop created edeleg_trap nohyp show ?thesis by blast
qed

text \<open>
  The theorem at the hart \<^verbatim>\<open>riscv32_create_vm\<close> creates, brought to User mode with
  Machine delegating the illegal-instruction trap: the scan passes the Hypervisor
  level and the trap is taken in Supervisor mode.
\<close>

theorem trap_target_privilege_witness:
  "(\<exists>g'. riscv32_create_vm global_boot 0 (Some 1) True (Some 7) = Inr (Some 1, g')
       \<and> heap g' 1 = Some vm_boot)
   \<and> edeleg (csr vm_boot) PRIVILEGE_HYPERVISOR = 0xFFFFFFFF
   \<and> priv_mode vm_boot = PRIVILEGE_MACHINE
   \<and> priv_mode vm_boot_user \<le> PRIVILEGE_MACHINE \<and> (2::u32) < 32
   \<and> edeleg (csr vm_boot_user) PRIVILEGE_HYPERVISOR = 0xFFFFFFFF
   \<and> priv_mode vm_boot_user \<noteq> PRIVILEGE_HYPERVISOR
   \<and> edeleg (csr vm_boot_user) PRIVILEGE_MACHINE AND push_bit (unat (2::u32)) 1 \<noteq> 0
   \<and> priv_mode (riscv32_trap vm_boot_user 2 0) = PRIVILEGE_SUPERVISOR
   \<and> edeleg (csr vm_boot_user) PRIVILEGE_SUPERVISOR AND push_bit (unat (2::u32)) 1 = 0
   \<and> priv_mode (riscv32_trap vm_boot_user 2 0) \<noteq> PRIVILEGE_HYPERVISOR"
proof -
  obtain g1 where g1: "riscv32_create_vm global_boot 0 (Some 1) True (Some 7) = Inr (Some 1, g1)"
    "heap g1 1 = Some vm_boot"
    using create_vm_boot by blast
  have h: "priv_mode vm_boot_user \<le> PRIVILEGE_MACHINE" "(2::u32) < 32"
    by (simp_all add: vm_boot_user_def priv_defs)
  have e: "edeleg (csr vm_boot_user) PRIVILEGE_HYPERVISOR = 0xFFFFFFFF"
    "priv_mode vm_boot_user \<noteq> PRIVILEGE_HYPERVISOR"
    "edeleg (csr vm_boot_user) PRIVILEGE_MACHINE AND push_bit (unat (2::u32)) 1 \<noteq> 0"
    "edeleg (csr vm_boot_user) PRIVILEGE_SUPERVISOR AND push_bit (unat (2::u32)) 1 = 0"
    by (simp_all add: vm_boot_user_def vm_boot_def vm_calloc_def csr_calloc_def priv_defs)
  have t: "priv_mode (riscv32_trap vm_boot_user 2 0) = PRIVILEGE_SUPERVISOR"
    by (simp add: vm_boot_user_def vm_boot_def vm_calloc_def csr_calloc_def priv_defs
        riscv32_trap_def deleg_loop.simps)
  from trap_target_privilege[OF h refl refl, of 0 global_boot 0 "Some 1" True "Some 7" 1 g1] g1 e
  have "edeleg (csr vm_boot) PRIVILEGE_HYPERVISOR = 0xFFFFFFFF
      \<and> priv_mode vm_boot = PRIVILEGE_MACHINE
      \<and> priv_mode (riscv32_trap vm_boot_user 2 0) \<noteq> PRIVILEGE_HYPERVISOR"
    by auto
  with g1 h e t show ?thesis by blast
qed

section \<open>Pending interrupts\<close>

lemma irq_level_ucast: "(ucast ((of_nat i :: u32) AND 3) :: u8) = of_nat i AND 3"
  by (rule bit_word_eqI) (auto simp: bit_simps)

lemma and3_le_machine: "(x :: u8) AND 3 \<le> PRIVILEGE_MACHINE"
  by (simp add: PRIVILEGE_MACHINE_def word_and_le1)

lemma handle_ip_loop_False: "handle_ip_loop vm wfi n = (False, vm') \<Longrightarrow> vm' = vm"
  by (induction n) (auto simp: Let_def split: if_splits)

lemma handle_ip_loop_True:
  "handle_ip_loop vm wfi n = (True, vm') \<Longrightarrow>
     \<exists>i. 1 \<le> i \<and> i \<le> n
       \<and> ip (csr vm) AND push_bit i 1 \<noteq> 0 \<and> ie (csr vm) AND push_bit i 1 \<noteq> 0
       \<and> (priv_mode vm < of_nat i AND 3
            \<or> of_nat i AND 3 = priv_mode vm
              \<and> (status (csr vm) AND push_bit (unat (priv_mode vm)) 1 \<noteq> 0 \<or> wfi))
       \<and> vm' = riscv32_perform_interrupt
                  (if wfi then (riscv32i_write_register_u vm REGISTER_PC
                                  (riscv32i_read_register_u vm REGISTER_PC + 4))\<lparr>ev_trap := True\<rparr>
                   else vm) (of_nat i)"
proof (induction n)
  case 0
  then show ?case by simp
next
  case (Suc n)
  show ?case
  proof (cases "handle_ip_loop vm wfi (Suc n) = handle_ip_loop vm wfi n")
    case True
    with Suc obtain i where "1 \<le> i" "i \<le> n" and rest: "ip (csr vm) AND push_bit i 1 \<noteq> 0 \<and> ie (csr vm) AND push_bit i 1 \<noteq> 0
       \<and> (priv_mode vm < of_nat i AND 3
            \<or> of_nat i AND 3 = priv_mode vm
              \<and> (status (csr vm) AND push_bit (unat (priv_mode vm)) 1 \<noteq> 0 \<or> wfi))
       \<and> vm' = riscv32_perform_interrupt
                  (if wfi then (riscv32i_write_register_u vm REGISTER_PC
                                  (riscv32i_read_register_u vm REGISTER_PC + 4))\<lparr>ev_trap := True\<rparr>
                   else vm) (of_nat i)"
      by auto
    then show ?thesis by (intro exI[of _ i]) simp
  next
    case False
    with Suc.prems show ?thesis
      by (intro exI[of _ "Suc n"]) (auto simp: Let_def split: if_splits)
  qed
qed

lemma priv_mode_perform_interrupt:
  "priv_mode (riscv32_perform_interrupt vm c) =
     deleg_loop (ideleg (csr vm)) c (ucast (c AND 3)) PRIVILEGE_MACHINE"
  by (simp add: riscv32_perform_interrupt_def Let_def)

lemma cause_perform_interrupt:
  "cause (csr (riscv32_perform_interrupt vm c)) (priv_mode (riscv32_perform_interrupt vm c))
     = c OR INTERRUPT_MASK"
  by (simp add: riscv32_perform_interrupt_def Let_def)

lemma unat_irq: "i \<le> 11 \<Longrightarrow> unat (of_nat i :: u32) = i"
  by (simp add: unat_of_nat take_bit_nat_eq_self)

text \<open>
  C2 (as amended).  When a scan of \<^verbatim>\<open>riscv32_handle_ip\<close> fires, it fires an interrupt
  \<open>i\<close> between 1 and 11 whose bit is set in both \<open>ip\<close> and \<open>ie\<close> and whose own level
  \<open>i AND 3\<close> is above the current privilege, or equal to it with the global-enable
  bit of that level set in \<open>status\<close> or the hart in WFI.  The interrupt is delivered
  at the target privilege that the scan of \<open>ideleg\<close> from Machine down to the
  interrupt's own level \<open>i AND 3\<close> (not down to the current mode) finds: every level
  above the target up to Machine delegates \<open>i\<close>, and the target is the interrupt's
  own level or does not delegate \<open>i\<close>.  That target is at least the current
  privilege, and when the two are equal the global-enable bit is set or the hart
  is in WFI.
\<close>

theorem interrupt_fires_only_when:
  assumes "riscv32_handle_ip vm wfi = (True, vm')"
  shows "\<exists>i. 1 \<le> i \<and> i \<le> 11
     \<and> cause (csr vm') (priv_mode vm') = of_nat i OR INTERRUPT_MASK
     \<and> ip (csr vm) AND push_bit i 1 \<noteq> 0
     \<and> ie (csr vm) AND push_bit i 1 \<noteq> 0
     \<and> (priv_mode vm < of_nat i AND 3
          \<or> of_nat i AND 3 = priv_mode vm
            \<and> (status (csr vm) AND push_bit (unat (priv_mode vm)) 1 \<noteq> 0 \<or> wfi))
     \<and> priv_mode vm' = deleg_loop (ideleg (csr vm)) (of_nat i) (of_nat i AND 3) PRIVILEGE_MACHINE
     \<and> of_nat i AND 3 \<le> priv_mode vm' \<and> priv_mode vm' \<le> PRIVILEGE_MACHINE
     \<and> (\<forall>q. priv_mode vm' < q \<and> q \<le> PRIVILEGE_MACHINE
            \<longrightarrow> ideleg (csr vm) q AND push_bit i 1 \<noteq> 0)
     \<and> (priv_mode vm' = of_nat i AND 3
          \<or> ideleg (csr vm) (priv_mode vm') AND push_bit i 1 = 0)
     \<and> priv_mode vm \<le> priv_mode vm'
     \<and> (priv_mode vm' = priv_mode vm
          \<longrightarrow> status (csr vm) AND push_bit (unat (priv_mode vm)) 1 \<noteq> 0 \<or> wfi)"
proof -
  let ?pre = "if wfi then (riscv32i_write_register_u vm REGISTER_PC
                            (riscv32i_read_register_u vm REGISTER_PC + 4))\<lparr>ev_trap := True\<rparr>
              else vm"
  from assms have "handle_ip_loop vm wfi 11 = (True, vm')"
    by (simp add: riscv32_handle_ip_def split: if_splits)
  then obtain i where i: "1 \<le> i" "i \<le> 11"
    and pend: "ip (csr vm) AND push_bit i 1 \<noteq> 0" "ie (csr vm) AND push_bit i 1 \<noteq> 0"
    and allow: "priv_mode vm < of_nat i AND 3
            \<or> of_nat i AND 3 = priv_mode vm
              \<and> (status (csr vm) AND push_bit (unat (priv_mode vm)) 1 \<noteq> 0 \<or> wfi)"
    and vm': "vm' = riscv32_perform_interrupt ?pre (of_nat i)"
    using handle_ip_loop_True by blast
  have pre: "csr ?pre = csr vm" "priv_mode ?pre = priv_mode vm"
    by (simp_all add: riscv32i_write_register_u_def)
  let ?lim = "of_nat i AND 3 :: u8"
  let ?t = "deleg_loop (ideleg (csr vm)) (of_nat i) ?lim PRIVILEGE_MACHINE"
  have u: "unat (of_nat i :: u32) = i"
    using i(2) by (rule unat_irq)
  have lim: "?lim \<le> PRIVILEGE_MACHINE"
    by (rule and3_le_machine)
  have target: "priv_mode vm' = ?t"
    by (simp add: vm' priv_mode_perform_interrupt pre irq_level_ucast)
  have cause: "cause (csr vm') (priv_mode vm') = of_nat i OR INTERRUPT_MASK"
    unfolding vm' by (rule cause_perform_interrupt)
  have bounds: "?lim \<le> ?t \<and> ?t \<le> PRIVILEGE_MACHINE"
    using lim by (rule deleg_loop_le)
  have above: "\<forall>q. ?t < q \<and> q \<le> PRIVILEGE_MACHINE
      \<longrightarrow> ideleg (csr vm) q AND push_bit i 1 \<noteq> 0"
    using deleg_loop_above[OF lim, of "ideleg (csr vm)" "of_nat i"] by (simp add: u)
  have stop: "?t = ?lim \<or> ideleg (csr vm) ?t AND push_bit i 1 = 0"
    using deleg_loop_stop[OF _ lim, of "ideleg (csr vm)" "of_nat i"] by (auto simp: u)
  from allow bounds have ge: "priv_mode vm \<le> ?t" by auto
  have eq: "status (csr vm) AND push_bit (unat (priv_mode vm)) 1 \<noteq> 0 \<or> wfi"
    if "?t = priv_mode vm"
    using allow bounds that by auto
  from i cause pend allow target bounds above stop ge eq show ?thesis
    by (intro exI[of _ i]) simp
qed

lemma handle_ip_mtimer:
  "riscv32_handle_ip vm_mtimer False = (True, riscv32_perform_interrupt vm_mtimer 7)"
  by (simp add: vm_mtimer_def vm_eval)

lemma handle_ip_irq5:
  "riscv32_handle_ip vm_s_irq5 False = (True, riscv32_perform_interrupt vm_s_irq5 5)"
  by (simp add: vm_s_irq5_def vm_boot_def vm_calloc_def csr_calloc_def priv_defs
      riscv32_handle_ip_def handle_ip_loop_numeral Let_def)

lemma handle_ip_irq7:
  "riscv32_handle_ip vm_s_irq7 False = (True, riscv32_perform_interrupt vm_s_irq7 7)"
  by (simp add: vm_s_irq7_def vm_boot_def vm_calloc_def csr_calloc_def priv_defs
      riscv32_handle_ip_def handle_ip_loop_numeral Let_def)

text \<open>
  The theorem at a Supervisor-mode hart with SIE set and the supervisor timer
  interrupt pending, enabled and delegated by Machine: the scan goes down two
  levels and the interrupt is taken in Supervisor mode.
\<close>

theorem interrupt_fires_only_when_witness:
  "riscv32_handle_ip vm_s_irq5 False = (True, riscv32_perform_interrupt vm_s_irq5 5)
   \<and> priv_mode vm_s_irq5 = PRIVILEGE_SUPERVISOR
   \<and> ideleg (csr vm_s_irq5) PRIVILEGE_MACHINE AND push_bit 5 1 \<noteq> 0
   \<and> ideleg (csr vm_s_irq5) PRIVILEGE_HYPERVISOR AND push_bit 5 1 \<noteq> 0
   \<and> ideleg (csr vm_s_irq5) PRIVILEGE_SUPERVISOR AND push_bit 5 1 = 0
   \<and> priv_mode (riscv32_perform_interrupt vm_s_irq5 5) = PRIVILEGE_SUPERVISOR
   \<and> status (csr vm_s_irq5) AND push_bit (unat (priv_mode vm_s_irq5)) 1 \<noteq> 0
   \<and> (\<exists>i. 1 \<le> i \<and> i \<le> 11
     \<and> cause (csr (riscv32_perform_interrupt vm_s_irq5 5))
          (priv_mode (riscv32_perform_interrupt vm_s_irq5 5)) = of_nat i OR INTERRUPT_MASK
     \<and> ip (csr vm_s_irq5) AND push_bit i 1 \<noteq> 0
     \<and> ie (csr vm_s_irq5) AND push_bit i 1 \<noteq> 0
     \<and> of_nat i AND 3 \<le> priv_mode (riscv32_perform_interrupt vm_s_irq5 5)
     \<and> priv_mode vm_s_irq5 \<le> priv_mode (riscv32_perform_interrupt vm_s_irq5 5))"
proof -
  have v: "priv_mode vm_s_irq5 = PRIVILEGE_SUPERVISOR"
    "ideleg (csr vm_s_irq5) PRIVILEGE_MACHINE AND push_bit 5 1 \<noteq> 0"
    "ideleg (csr vm_s_irq5) PRIVILEGE_HYPERVISOR AND push_bit 5 1 \<noteq> 0"
    "ideleg (csr vm_s_irq5) PRIVILEGE_SUPERVISOR AND push_bit 5 1 = 0"
    by (simp_all add: vm_s_irq5_def vm_boot_def vm_calloc_def csr_calloc_def priv_defs)
  have t: "priv_mode (riscv32_perform_interrupt vm_s_irq5 5) = PRIVILEGE_SUPERVISOR"
    by (simp add: vm_s_irq5_def vm_boot_def vm_calloc_def csr_calloc_def priv_defs
        riscv32_perform_interrupt_def deleg_loop.simps Let_def)
  from interrupt_fires_only_when[OF handle_ip_irq5] t v(1)
  have "status (csr vm_s_irq5) AND push_bit (unat (priv_mode vm_s_irq5)) 1 \<noteq> 0"
    by auto
  with interrupt_fires_only_when[OF handle_ip_irq5] handle_ip_irq5 v t show ?thesis
    by auto
qed

text \<open>
  The scan down to the current mode, as it is for traps, gives another target.  On a
  Supervisor-mode hart with SIE clear, with the machine timer interrupt pending,
  enabled and delegated by Machine, that scan ends at Supervisor, the current mode,
  whose enable bit is clear; the code fires the interrupt and takes it in Machine
  mode.
\<close>

theorem interrupt_target_rule_counterexample:
  "priv_mode vm_s_irq7 = PRIVILEGE_SUPERVISOR
   \<and> ip (csr vm_s_irq7) = 0x80 \<and> ie (csr vm_s_irq7) = 0x80
   \<and> ideleg (csr vm_s_irq7) PRIVILEGE_MACHINE = 0x80
   \<and> ideleg (csr vm_s_irq7) PRIVILEGE_HYPERVISOR = 0xFFFFFFFF
   \<and> deleg_loop (ideleg (csr vm_s_irq7)) 7 (priv_mode vm_s_irq7) PRIVILEGE_MACHINE
       = PRIVILEGE_SUPERVISOR
   \<and> status (csr vm_s_irq7) AND push_bit (unat PRIVILEGE_SUPERVISOR) 1 = 0
   \<and> riscv32_handle_ip vm_s_irq7 False = (True, riscv32_perform_interrupt vm_s_irq7 7)
   \<and> priv_mode (riscv32_perform_interrupt vm_s_irq7 7) = PRIVILEGE_MACHINE"
proof -
  have v: "priv_mode vm_s_irq7 = PRIVILEGE_SUPERVISOR"
    "ip (csr vm_s_irq7) = 0x80" "ie (csr vm_s_irq7) = 0x80"
    "ideleg (csr vm_s_irq7) PRIVILEGE_MACHINE = 0x80"
    "ideleg (csr vm_s_irq7) PRIVILEGE_HYPERVISOR = 0xFFFFFFFF"
    "status (csr vm_s_irq7) AND push_bit (unat PRIVILEGE_SUPERVISOR) 1 = 0"
    by (simp_all add: vm_s_irq7_def vm_boot_def vm_calloc_def csr_calloc_def priv_defs)
  have s: "deleg_loop (ideleg (csr vm_s_irq7)) 7 (priv_mode vm_s_irq7) PRIVILEGE_MACHINE
       = PRIVILEGE_SUPERVISOR"
    by (simp add: vm_s_irq7_def vm_boot_def vm_calloc_def csr_calloc_def priv_defs
        deleg_loop.simps)
  have t: "priv_mode (riscv32_perform_interrupt vm_s_irq7 7) = PRIVILEGE_MACHINE"
    by (simp add: vm_s_irq7_def vm_boot_def vm_calloc_def csr_calloc_def priv_defs
        riscv32_perform_interrupt_def deleg_loop.simps Let_def)
  from v s t handle_ip_irq7 show ?thesis by simp
qed

text \<open>
  C5.  When \<^verbatim>\<open>riscv32_handle_ip\<close> is called with \<open>wfi\<close> true and an interrupt fires, the
  PC has been advanced by 4 (in 32-bit arithmetic) before the delivery, so that \<open>epc\<close>
  of the target level holds the advanced PC, and \<open>ev_trap\<close> is set; when no interrupt
  fires the hart is unchanged, and so is its PC.
\<close>

theorem wfi_interrupt_advances_pc:
  assumes "riscv32_handle_ip vm wfi = (fired, vm')"
  shows "(fired \<and> wfi \<longrightarrow>
            riscv32i_read_register_u vm' REGISTER_PC = riscv32i_read_register_u vm REGISTER_PC + 4
            \<and> ev_trap vm'
            \<and> epc (csr vm') (priv_mode vm') = riscv32i_read_register_u vm REGISTER_PC + 4)
       \<and> (\<not> fired \<longrightarrow>
            vm' = vm
            \<and> riscv32i_read_register_u vm' REGISTER_PC = riscv32i_read_register_u vm REGISTER_PC)"
proof (cases fired)
  case False
  with assms have "handle_ip_loop vm wfi 11 = (False, vm') \<or> vm' = vm"
    by (auto simp: riscv32_handle_ip_def split: if_splits)
  then have "vm' = vm" by (auto dest: handle_ip_loop_False)
  with False show ?thesis by simp
next
  case True
  with assms have "handle_ip_loop vm wfi 11 = (True, vm')"
    by (simp add: riscv32_handle_ip_def split: if_splits)
  then obtain i where vm': "vm' = riscv32_perform_interrupt
                  (if wfi then (riscv32i_write_register_u vm REGISTER_PC
                                  (riscv32i_read_register_u vm REGISTER_PC + 4))\<lparr>ev_trap := True\<rparr>
                   else vm) (of_nat i)"
    using handle_ip_loop_True by blast
  have "riscv32i_read_register_u vm' REGISTER_PC = riscv32i_read_register_u vm REGISTER_PC + 4
      \<and> ev_trap vm'
      \<and> epc (csr vm') (priv_mode vm') = riscv32i_read_register_u vm REGISTER_PC + 4" if wfi
    using that unfolding vm'
    by (simp add: riscv32_perform_interrupt_def riscv32i_write_register_u_def
        riscv32i_read_register_u_def REGISTER_PC_def Let_def)
  with True show ?thesis by simp
qed

lemma handle_ip_wfi:
  "riscv32_handle_ip vm_wfi True =
     (True, riscv32_perform_interrupt
              ((riscv32i_write_register_u vm_wfi REGISTER_PC
                  (riscv32i_read_register_u vm_wfi REGISTER_PC + 4))\<lparr>ev_trap := True\<rparr>) 7)"
  by (simp add: vm_wfi_def vm_calloc_def csr_calloc_def priv_defs riscv32_handle_ip_def
      handle_ip_loop_numeral Let_def)

text \<open>
  The theorem at a Machine-mode hart in WFI with MIE clear and the machine timer
  interrupt pending and enabled, and at a hart with nothing pending.
\<close>

theorem wfi_interrupt_advances_pc_witness:
  "fst (riscv32_handle_ip vm_wfi True)
   \<and> status (csr vm_wfi) = 0
   \<and> riscv32i_read_register_u vm_wfi REGISTER_PC = 0x80000010
   \<and> riscv32i_read_register_u (snd (riscv32_handle_ip vm_wfi True)) REGISTER_PC = 0x80000014
   \<and> ev_trap (snd (riscv32_handle_ip vm_wfi True))
   \<and> epc (csr (snd (riscv32_handle_ip vm_wfi True)))
        (priv_mode (snd (riscv32_handle_ip vm_wfi True))) = 0x80000014
   \<and> riscv32_handle_ip vm_calloc True = (False, vm_calloc)"
proof -
  have pc: "riscv32i_read_register_u vm_wfi REGISTER_PC = 0x80000010"
    and st: "status (csr vm_wfi) = 0"
    by (simp_all add: vm_wfi_def vm_calloc_def csr_calloc_def riscv32i_read_register_u_def
        REGISTER_PC_def)
  have idle: "riscv32_handle_ip vm_calloc True = (False, snd (riscv32_handle_ip vm_calloc True))"
    by (simp add: riscv32_handle_ip_def vm_calloc_def csr_calloc_def)
  from wfi_interrupt_advances_pc[OF idle] idle
  have "riscv32_handle_ip vm_calloc True = (False, vm_calloc)"
    by simp
  with wfi_interrupt_advances_pc[OF handle_ip_wfi] pc st show ?thesis
    by (simp add: handle_ip_wfi)
qed

section \<open>The state a trap leaves\<close>

lemma status_masks:
  "(0xFFFFFFF7::u32) = NOT (push_bit 3 (mask 1))"
  "(0xFFFFFFFD::u32) = NOT (push_bit 1 (mask 1))"
  by (simp_all add: mask_eq_exp_minus_1)

lemma bit_status_masks:
  "bit (0xFFFFFFF7::u32) n \<longleftrightarrow> n < 32 \<and> n \<noteq> 3"
  "bit (0xFFFFFFFD::u32) n \<longleftrightarrow> n < 32 \<and> n \<noteq> 1"
  unfolding status_masks
  apply (simp_all only: bit_simps)
   apply auto
  done

lemma save_status_machine_eq:
  "save_status PRIVILEGE_MACHINE prev st =
     bit_replace (bit_replace st 11 2 (ucast prev)) 7 1
       (bit_cut (bit_replace st 11 2 (ucast prev)) 3 1) AND 0xFFFFFFF7"
  unfolding save_status_def Let_def by (simp only: if_True simp_thms)

lemma save_status_supervisor_eq:
  "save_status PRIVILEGE_SUPERVISOR prev st =
     bit_replace (bit_replace st 8 1 (ucast prev)) 5 1
       (bit_cut (bit_replace st 8 1 (ucast prev)) 1 1) AND 0xFFFFFFFD"
proof -
  have "PRIVILEGE_SUPERVISOR \<noteq> PRIVILEGE_MACHINE" by (simp add: priv_defs)
  then show ?thesis
    unfolding save_status_def Let_def by (simp only: if_True if_False simp_thms)
qed

lemma bit_save_status_machine:
  "bit (save_status PRIVILEGE_MACHINE prev st) n \<longleftrightarrow>
     (if n = 3 then False
      else if n = 7 then bit st 3
      else if n = 11 then bit prev 0
      else if n = 12 then bit prev 1
      else bit st n)"
  unfolding save_status_machine_eq bit_replace_def bit_cut_def
  apply (simp only: bit_simps bit_status_masks)
  apply (auto simp: bit_simps dest: bit_imp_le_length)
  done

lemma bit_save_status_supervisor:
  "bit (save_status PRIVILEGE_SUPERVISOR prev st) n \<longleftrightarrow>
     (if n = 1 then False
      else if n = 5 then bit st 1
      else if n = 8 then bit prev 0
      else bit st n)"
  unfolding save_status_supervisor_eq bit_replace_def bit_cut_def
  apply (simp only: bit_simps bit_status_masks)
  apply (auto simp: bit_simps dest: bit_imp_le_length)
  done

lemma priv_fits:
  fixes prev :: u8
  assumes "prev < 2 ^ k" and "bit prev n"
  shows "n < k"
proof -
  from assms(1) have eq: "prev AND mask k = prev" by (rule less_mask_eq)
  from assms(2) have "bit (prev AND mask k) n" by (simp only: eq)
  then show ?thesis by (simp add: bit_and_iff bit_mask_iff)
qed

lemma bit_cut_machine:
  assumes "prev \<le> 3"
  shows "bit_cut (save_status PRIVILEGE_MACHINE prev st) 11 2 = ucast prev"
proof (rule bit_word_eqI)
  fix n assume "n < LENGTH(32)"
  from assms have "prev < 2 ^ 2"
    by (simp add: word_le_nat_alt word_less_nat_alt)
  then have fits: "\<And>k. bit prev k \<Longrightarrow> k < 2" by (rule priv_fits)
  have "n < 2 \<Longrightarrow> n = 0 \<or> n = 1" by arith
  then show "bit (bit_cut (save_status PRIVILEGE_MACHINE prev st) 11 2) n = bit (ucast prev :: u32) n"
    by (auto simp: bit_cut_def bit_simps bit_save_status_machine dest: fits)
qed

lemma bit_cut_supervisor:
  assumes "prev \<le> 1"
  shows "bit_cut (save_status PRIVILEGE_SUPERVISOR prev st) 8 1 = ucast prev"
proof (rule bit_word_eqI)
  fix n assume "n < LENGTH(32)"
  from assms have "prev < 2 ^ 1"
    by (simp add: word_le_nat_alt word_less_nat_alt)
  then have fits: "\<And>k. bit prev k \<Longrightarrow> k < 1" by (rule priv_fits)
  show "bit (bit_cut (save_status PRIVILEGE_SUPERVISOR prev st) 8 1) n = bit (ucast prev :: u32) n"
    by (auto simp: bit_cut_def bit_simps bit_save_status_supervisor dest: fits)
qed

lemma save_status_other:
  "p \<noteq> PRIVILEGE_MACHINE \<Longrightarrow> p \<noteq> PRIVILEGE_SUPERVISOR \<Longrightarrow> save_status p prev st = st"
  by (simp add: save_status_def)

lemma trap_fields:
  "priv_mode (riscv32_trap vm c tv) = deleg_loop (edeleg (csr vm)) c (priv_mode vm) PRIVILEGE_MACHINE"
  "ev_trap (riscv32_trap vm c tv)"
  "epc (csr (riscv32_trap vm c tv)) (priv_mode (riscv32_trap vm c tv))
     = riscv32i_read_register_u vm REGISTER_PC"
  "cause (csr (riscv32_trap vm c tv)) (priv_mode (riscv32_trap vm c tv)) = c"
  "tval (csr (riscv32_trap vm c tv)) (priv_mode (riscv32_trap vm c tv)) = tv"
  "status (csr (riscv32_trap vm c tv))
     = save_status (priv_mode (riscv32_trap vm c tv)) (priv_mode vm) (status (csr vm))"
  by (simp_all add: riscv32_trap_def Let_def)

text \<open>
  C3 (as amended).  A trap that \<^verbatim>\<open>riscv32_trap\<close> delivers to the target privilege \<open>p\<close>
  leaves the PC of the trap in \<open>epc[p]\<close>, the cause in \<open>cause[p]\<close>, the given value in
  \<open>tval[p]\<close>, the current privilege at \<open>p\<close> and \<open>ev_trap\<close> set.  For \<open>p\<close> Machine the
  previous privilege is in MPP (bits 12:11), MPIE (bit 7) has the old MIE (bit 3),
  MIE is clear and no other bit of \<open>status\<close> has changed; for \<open>p\<close> Supervisor the same
  holds of SPP (bit 8), SPIE (bit 5) and SIE (bit 1).  For any other \<open>p\<close> the code
  leaves \<open>status\<close> as it was.
\<close>

theorem trap_delivery_state:
  assumes "priv_mode vm \<le> PRIVILEGE_MACHINE"
    and "p = deleg_loop (edeleg (csr vm)) c (priv_mode vm) PRIVILEGE_MACHINE"
    and "vm' = riscv32_trap vm c tv"
  shows "priv_mode vm' = p \<and> ev_trap vm'
     \<and> epc (csr vm') p = riscv32i_read_register_u vm REGISTER_PC
     \<and> cause (csr vm') p = c
     \<and> tval (csr vm') p = tv
     \<and> (p = PRIVILEGE_MACHINE \<longrightarrow>
          bit_cut (status (csr vm')) 11 2 = ucast (priv_mode vm)
          \<and> bit (status (csr vm')) 7 = bit (status (csr vm)) 3
          \<and> \<not> bit (status (csr vm')) 3
          \<and> (\<forall>n. n \<noteq> 3 \<and> n \<noteq> 7 \<and> n \<noteq> 11 \<and> n \<noteq> 12
                \<longrightarrow> bit (status (csr vm')) n = bit (status (csr vm)) n))
     \<and> (p = PRIVILEGE_SUPERVISOR \<longrightarrow>
          bit_cut (status (csr vm')) 8 1 = ucast (priv_mode vm)
          \<and> bit (status (csr vm')) 5 = bit (status (csr vm)) 1
          \<and> \<not> bit (status (csr vm')) 1
          \<and> (\<forall>n. n \<noteq> 1 \<and> n \<noteq> 5 \<and> n \<noteq> 8
                \<longrightarrow> bit (status (csr vm')) n = bit (status (csr vm)) n))
     \<and> (p \<noteq> PRIVILEGE_MACHINE \<and> p \<noteq> PRIVILEGE_SUPERVISOR \<longrightarrow>
          status (csr vm') = status (csr vm))"
proof -
  have pm: "priv_mode vm' = p"
    by (simp add: assms(2,3) trap_fields(1))
  have st: "status (csr vm') = save_status p (priv_mode vm) (status (csr vm))"
    using pm by (simp add: assms(3) trap_fields(6))
  have basic: "ev_trap vm'" "epc (csr vm') p = riscv32i_read_register_u vm REGISTER_PC"
    "cause (csr vm') p = c" "tval (csr vm') p = tv"
    using pm trap_fields(2-5)[of vm c tv] by (simp_all add: assms(3))
  have le: "priv_mode vm \<le> p"
    unfolding assms(2) using deleg_loop_le[OF assms(1)] by blast
  have m: "bit_cut (status (csr vm')) 11 2 = ucast (priv_mode vm)
          \<and> bit (status (csr vm')) 7 = bit (status (csr vm)) 3
          \<and> \<not> bit (status (csr vm')) 3
          \<and> (\<forall>n. n \<noteq> 3 \<and> n \<noteq> 7 \<and> n \<noteq> 11 \<and> n \<noteq> 12
                \<longrightarrow> bit (status (csr vm')) n = bit (status (csr vm)) n)"
    if "p = PRIVILEGE_MACHINE"
  proof -
    from assms(1) have "priv_mode vm \<le> 3" by (simp add: PRIVILEGE_MACHINE_def)
    from bit_cut_machine[OF this] show ?thesis
      unfolding st that by (simp add: bit_save_status_machine)
  qed
  have s: "bit_cut (status (csr vm')) 8 1 = ucast (priv_mode vm)
          \<and> bit (status (csr vm')) 5 = bit (status (csr vm)) 1
          \<and> \<not> bit (status (csr vm')) 1
          \<and> (\<forall>n. n \<noteq> 1 \<and> n \<noteq> 5 \<and> n \<noteq> 8
                \<longrightarrow> bit (status (csr vm')) n = bit (status (csr vm)) n)"
    if "p = PRIVILEGE_SUPERVISOR"
  proof -
    from le that have "priv_mode vm \<le> 1" by (simp add: PRIVILEGE_SUPERVISOR_def)
    from bit_cut_supervisor[OF this] show ?thesis
      unfolding st that by (simp add: bit_save_status_supervisor)
  qed
  have o: "status (csr vm') = status (csr vm)"
    if "p \<noteq> PRIVILEGE_MACHINE" "p \<noteq> PRIVILEGE_SUPERVISOR"
    unfolding st using that by (rule save_status_other)
  from pm basic m s o show ?thesis by blast
qed

text \<open>
  The theorem at a trap taken in Machine mode, at one delegated to Supervisor mode
  and at one delegated all the way to User mode.
\<close>

theorem trap_delivery_state_witness:
  "priv_mode vm_machine \<le> PRIVILEGE_MACHINE
   \<and> priv_mode (riscv32_trap vm_machine 2 0) = PRIVILEGE_MACHINE
   \<and> status (csr vm_machine) = 0x8
   \<and> bit_cut (status (csr (riscv32_trap vm_machine 2 0))) 11 2 = 3
   \<and> bit (status (csr (riscv32_trap vm_machine 2 0))) 7
   \<and> \<not> bit (status (csr (riscv32_trap vm_machine 2 0))) 3
   \<and> epc (csr (riscv32_trap vm_machine 2 0)) PRIVILEGE_MACHINE = 0x80000010
   \<and> priv_mode vm_user_deleg \<le> PRIVILEGE_MACHINE
   \<and> priv_mode (riscv32_trap vm_user_deleg 2 0) = PRIVILEGE_SUPERVISOR
   \<and> status (csr vm_user_deleg) = 0xA
   \<and> bit_cut (status (csr (riscv32_trap vm_user_deleg 2 0))) 8 1 = 0
   \<and> bit (status (csr (riscv32_trap vm_user_deleg 2 0))) 5
   \<and> \<not> bit (status (csr (riscv32_trap vm_user_deleg 2 0))) 1
   \<and> priv_mode vm_user_all \<le> PRIVILEGE_MACHINE
   \<and> priv_mode (riscv32_trap vm_user_all 2 0) = PRIVILEGE_USER
   \<and> status (csr (riscv32_trap vm_user_all 2 0)) = status (csr vm_user_all)"
proof -
  have m: "priv_mode vm_machine \<le> PRIVILEGE_MACHINE"
    and s: "priv_mode vm_user_deleg \<le> PRIVILEGE_MACHINE"
    and u: "priv_mode vm_user_all \<le> PRIVILEGE_MACHINE"
    by (simp_all add: vm_machine_def vm_user_deleg_def vm_user_all_def vm_calloc_def priv_defs)
  have pm: "deleg_loop (edeleg (csr vm_machine)) 2 (priv_mode vm_machine) PRIVILEGE_MACHINE
      = PRIVILEGE_MACHINE"
    and ps: "deleg_loop (edeleg (csr vm_user_deleg)) 2 (priv_mode vm_user_deleg) PRIVILEGE_MACHINE
      = PRIVILEGE_SUPERVISOR"
    and pu: "deleg_loop (edeleg (csr vm_user_all)) 2 (priv_mode vm_user_all) PRIVILEGE_MACHINE
      = PRIVILEGE_USER"
    by (simp_all add: vm_machine_def vm_user_deleg_def vm_user_all_def vm_calloc_def
        csr_calloc_def priv_defs deleg_loop.simps)
  have vals: "status (csr vm_machine) = 0x8" "status (csr vm_user_deleg) = 0xA"
    "riscv32i_read_register_u vm_machine REGISTER_PC = 0x80000010"
    "ucast (priv_mode vm_machine) = (3::u32)" "ucast (priv_mode vm_user_deleg) = (0::u32)"
    by (simp_all add: vm_machine_def vm_user_deleg_def vm_calloc_def csr_calloc_def priv_defs
        riscv32i_read_register_u_def REGISTER_PC_def)
  from trap_delivery_state[OF m pm[symmetric] refl, of 0]
    trap_delivery_state[OF s ps[symmetric] refl, of 0]
    trap_delivery_state[OF u pu[symmetric] refl, of 0]
    m s u vals
  show ?thesis
    by (simp add: priv_defs)
qed

text \<open>
  A trap delegated to User mode: UIE (bit 0) stays set and UPIE (bit 4) stays clear.
\<close>

theorem trap_user_status_counterexample:
  "priv_mode (riscv32_trap vm_user_all TRAP_ILL_INSTR 0) = PRIVILEGE_USER
   \<and> bit (status (csr vm_user_all)) 0
   \<and> bit (status (csr (riscv32_trap vm_user_all TRAP_ILL_INSTR 0))) 0
   \<and> \<not> bit (status (csr (riscv32_trap vm_user_all TRAP_ILL_INSTR 0))) 4
   \<and> status (csr (riscv32_trap vm_user_all TRAP_ILL_INSTR 0)) = status (csr vm_user_all)"
  by (simp add: vm_user_all_def vm_calloc_def csr_calloc_def priv_defs riscv32_trap_def
      deleg_loop.simps TRAP_ILL_INSTR_def save_status_def)

section \<open>The trap vector\<close>

lemma pc_trap_jump:
  "riscv32i_read_register_u (riscv32_trap_jump vm) REGISTER_PC =
     (tvec (csr vm) (priv_mode vm) AND NOT 3)
       + (if tvec (csr vm) (priv_mode vm) AND 1 \<noteq> 0
          then push_bit 2 (cause (csr vm) (priv_mode vm)) else 0)"
  by (simp add: riscv32_trap_jump_def riscv32i_write_register_u_def riscv32i_read_register_u_def
      REGISTER_PC_def Let_def)

lemma shift_interrupt_mask: "push_bit 2 INTERRUPT_MASK = 0"
proof -
  have m: "INTERRUPT_MASK = push_bit 31 1"
    by (simp add: INTERRUPT_MASK_def)
  have "push_bit 2 INTERRUPT_MASK = (push_bit (2 + 31) 1 :: u32)"
    unfolding m by (rule push_bit_push_bit)
  also have "\<dots> = 0"
    by (rule push_bit_word_beyond) simp
  finally show ?thesis .
qed

lemma shift_interrupt_cause: "push_bit 2 ((x :: u32) OR INTERRUPT_MASK) = push_bit 2 x"
  by (simp only: push_bit_or shift_interrupt_mask) simp

lemma tvec_trap: "tvec (csr (riscv32_trap vm c tv)) = tvec (csr vm)"
  by (simp add: riscv32_trap_def Let_def)

lemma tvec_perform_interrupt: "tvec (csr (riscv32_perform_interrupt vm c)) = tvec (csr vm)"
  by (simp add: riscv32_perform_interrupt_def Let_def)

text \<open>
  C4 (as amended).  After a trap, and after an accepted interrupt, the jump sets the PC
  to \<open>tvec[p]\<close> with the low two bits cleared, plus \<open>cause[p] << 2\<close> in 32-bit
  arithmetic whenever the low bit of \<open>tvec[p]\<close> is set: four times the cause code for
  a synchronous trap, four times the interrupt number for an interrupt.
\<close>

theorem trap_vector_jump:
  "(let vm1 = riscv32_trap vm c tv; p = priv_mode vm1
    in riscv32i_read_register_u (run_event vm1) REGISTER_PC =
         (tvec (csr vm) p AND NOT 3)
           + (if tvec (csr vm) p AND 1 \<noteq> 0 then push_bit 2 c else 0))
   \<and> (riscv32_handle_ip vm wfi = (True, vm') \<longrightarrow>
        (\<exists>i. 1 \<le> i \<and> i \<le> 11
           \<and> cause (csr vm') (priv_mode vm') = of_nat i OR INTERRUPT_MASK
           \<and> riscv32i_read_register_u (riscv32_trap_jump vm') REGISTER_PC =
                (tvec (csr vm) (priv_mode vm') AND NOT 3)
                  + (if tvec (csr vm) (priv_mode vm') AND 1 \<noteq> 0
                     then push_bit 2 (of_nat i) else 0)))"
proof -
  let ?vm1 = "riscv32_trap vm c tv"
  have ev: "run_event ?vm1 = riscv32_trap_jump (?vm1\<lparr>ev_trap := False\<rparr>)"
    by (simp add: run_event_def trap_fields(2))
  have "riscv32i_read_register_u (run_event ?vm1) REGISTER_PC =
         (tvec (csr vm) (priv_mode ?vm1) AND NOT 3)
           + (if tvec (csr vm) (priv_mode ?vm1) AND 1 \<noteq> 0 then push_bit 2 c else 0)"
    unfolding ev pc_trap_jump by (simp add: tvec_trap trap_fields(4))
  then have a: "let vm1 = ?vm1; p = priv_mode vm1
    in riscv32i_read_register_u (run_event vm1) REGISTER_PC =
         (tvec (csr vm) p AND NOT 3)
           + (if tvec (csr vm) p AND 1 \<noteq> 0 then push_bit 2 c else 0)"
    by (simp add: Let_def)
  have b: "\<exists>i. 1 \<le> i \<and> i \<le> 11
           \<and> cause (csr vm') (priv_mode vm') = of_nat i OR INTERRUPT_MASK
           \<and> riscv32i_read_register_u (riscv32_trap_jump vm') REGISTER_PC =
                (tvec (csr vm) (priv_mode vm') AND NOT 3)
                  + (if tvec (csr vm) (priv_mode vm') AND 1 \<noteq> 0
                     then push_bit 2 (of_nat i) else 0)"
    if fired: "riscv32_handle_ip vm wfi = (True, vm')"
  proof -
    let ?pre = "if wfi then (riscv32i_write_register_u vm REGISTER_PC
                              (riscv32i_read_register_u vm REGISTER_PC + 4))\<lparr>ev_trap := True\<rparr>
                else vm"
    from fired have "handle_ip_loop vm wfi 11 = (True, vm')"
      by (simp add: riscv32_handle_ip_def split: if_splits)
    then obtain i where i: "1 \<le> i" "i \<le> 11"
      and vm': "vm' = riscv32_perform_interrupt ?pre (of_nat i)"
      using handle_ip_loop_True by blast
    have pre: "csr ?pre = csr vm"
      by (simp add: riscv32i_write_register_u_def)
    have c: "cause (csr vm') (priv_mode vm') = of_nat i OR INTERRUPT_MASK"
      unfolding vm' by (rule cause_perform_interrupt)
    have t: "tvec (csr vm') = tvec (csr vm)"
      unfolding vm' by (simp add: tvec_perform_interrupt pre)
    have "riscv32i_read_register_u (riscv32_trap_jump vm') REGISTER_PC =
                (tvec (csr vm) (priv_mode vm') AND NOT 3)
                  + (if tvec (csr vm) (priv_mode vm') AND 1 \<noteq> 0
                     then push_bit 2 (of_nat i) else 0)"
      unfolding pc_trap_jump c t shift_interrupt_cause ..
    with i c show ?thesis by blast
  qed
  from a b show ?thesis by blast
qed

text \<open>
  The theorem at an illegal-instruction trap and at a machine timer interrupt, both
  taken in Machine mode with a vectored \<open>tvec\<close>.
\<close>

theorem trap_vector_jump_witness:
  "tvec (csr vm_machine) PRIVILEGE_MACHINE = 0x80000101
   \<and> priv_mode (riscv32_trap vm_machine TRAP_ILL_INSTR 0) = PRIVILEGE_MACHINE
   \<and> riscv32i_read_register_u (run_event (riscv32_trap vm_machine TRAP_ILL_INSTR 0)) REGISTER_PC
       = 0x80000100 + push_bit 2 TRAP_ILL_INSTR
   \<and> riscv32_handle_ip vm_mtimer False = (True, riscv32_perform_interrupt vm_mtimer 7)
   \<and> (\<exists>i. 1 \<le> i \<and> i \<le> 11
         \<and> cause (csr (riscv32_perform_interrupt vm_mtimer 7)) PRIVILEGE_MACHINE
             = of_nat i OR INTERRUPT_MASK
         \<and> riscv32i_read_register_u (riscv32_trap_jump (riscv32_perform_interrupt vm_mtimer 7))
              REGISTER_PC = 0x80000100 + push_bit 2 (of_nat i))"
proof -
  have tv: "tvec (csr vm_machine) PRIVILEGE_MACHINE = 0x80000101"
    "tvec (csr vm_mtimer) PRIVILEGE_MACHINE = 0x80000101"
    by (simp_all add: vm_machine_def vm_mtimer_def vm_calloc_def csr_calloc_def)
  have pm: "priv_mode (riscv32_trap vm_machine TRAP_ILL_INSTR 0) = PRIVILEGE_MACHINE"
    "priv_mode (riscv32_perform_interrupt vm_mtimer 7) = PRIVILEGE_MACHINE"
    by (simp_all add: vm_machine_def vm_mtimer_def vm_eval)
  have a: "riscv32i_read_register_u (run_event (riscv32_trap vm_machine TRAP_ILL_INSTR 0))
        REGISTER_PC = 0x80000100 + push_bit 2 TRAP_ILL_INSTR"
    using trap_vector_jump[of vm_machine TRAP_ILL_INSTR 0]
    by (simp add: Let_def pm tv)
  have b: "\<exists>i. 1 \<le> i \<and> i \<le> 11
         \<and> cause (csr (riscv32_perform_interrupt vm_mtimer 7)) PRIVILEGE_MACHINE
             = of_nat i OR INTERRUPT_MASK
         \<and> riscv32i_read_register_u (riscv32_trap_jump (riscv32_perform_interrupt vm_mtimer 7))
              REGISTER_PC = 0x80000100 + push_bit 2 (of_nat i)"
    using trap_vector_jump[of vm_mtimer _ _ False "riscv32_perform_interrupt vm_mtimer 7"]
      handle_ip_mtimer
    by (simp add: pm tv)
  from tv pm a b handle_ip_mtimer show ?thesis by simp
qed

text \<open>
  A synchronous trap with a vectored \<open>tvec\<close>: the illegal-instruction trap (cause 2)
  jumps to the base plus 8.
\<close>

theorem trap_vector_offset_counterexample:
  "tvec (csr vm_machine) PRIVILEGE_MACHINE = 0x80000101
   \<and> priv_mode (riscv32_trap vm_machine TRAP_ILL_INSTR 0) = PRIVILEGE_MACHINE
   \<and> cause (csr (riscv32_trap vm_machine TRAP_ILL_INSTR 0)) PRIVILEGE_MACHINE = TRAP_ILL_INSTR
   \<and> riscv32i_read_register_u (run_event (riscv32_trap vm_machine TRAP_ILL_INSTR 0)) REGISTER_PC
       = 0x80000108"
  by (simp add: vm_machine_def vm_eval run_event_def riscv32_trap_jump_def TRAP_ILL_INSTR_def)

section \<open>The run loop\<close>

lemma ip_perform_interrupt: "ip (csr (riscv32_perform_interrupt vm c)) = ip (csr vm)"
  by (simp add: riscv32_perform_interrupt_def Let_def)

lemma ip_trap_jump: "ip (csr (riscv32_trap_jump vm)) = ip (csr vm)"
  by (simp add: riscv32_trap_jump_def riscv32i_write_register_u_def Let_def)

lemma ip_handle_ip: "ip (csr (snd (riscv32_handle_ip vm wfi))) = ip (csr vm)"
proof (cases "riscv32_handle_ip vm wfi")
  case (Pair fired vm')
  show ?thesis
  proof (cases fired)
    case False
    with Pair have "handle_ip_loop vm wfi 11 = (False, vm') \<or> vm' = vm"
      by (auto simp: riscv32_handle_ip_def split: if_splits)
    then have "vm' = vm" by (auto dest: handle_ip_loop_False)
    with Pair show ?thesis by simp
  next
    case True
    with Pair have "handle_ip_loop vm wfi 11 = (True, vm')"
      by (simp add: riscv32_handle_ip_def split: if_splits)
    then obtain i where "vm' = riscv32_perform_interrupt
                  (if wfi then (riscv32i_write_register_u vm REGISTER_PC
                                  (riscv32i_read_register_u vm REGISTER_PC + 4))\<lparr>ev_trap := True\<rparr>
                   else vm) (of_nat i)"
      using handle_ip_loop_True by blast
    with Pair show ?thesis
      by (simp add: ip_perform_interrupt riscv32i_write_register_u_def)
  qed
qed

lemma mtimer_test: "(x :: u32) AND push_bit INTERRUPT_MTIMER 1 \<noteq> 0 \<longleftrightarrow> bit x INTERRUPT_MTIMER"
  by (simp add: bit_iff_and_push_bit_not_eq_0)

text \<open>
  C8.  A pass of the run loop with \<open>ev_int\<close> set and \<open>ev_trap\<close> clear folds
  \<open>ev_int_mask\<close> into \<open>ip\<close> and then clears the MTIMER bit exactly when it is set and
  the timer is not pending; \<^verbatim>\<open>riscv32_handle_ip\<close> is called on the state with that \<open>ip\<close>,
  and neither it nor the jump changes \<open>ip\<close> again.
\<close>

theorem run_event_reconciles_ip:
  assumes "ev_int vm" and "\<not> ev_trap vm"
    and "ip1 = ip (csr vm) OR ev_int_mask vm"
    and "ip2 = (if bit ip1 INTERRUPT_MTIMER \<and> \<not> rvtimer_pending (timer vm)
                then ip1 AND NOT (push_bit INTERRUPT_MTIMER 1) else ip1)"
    and "vm1 = vm\<lparr>csr := (csr vm)\<lparr>ip := ip2\<rparr>, ev_int := False\<rparr>"
  shows "run_event vm = (case riscv32_handle_ip vm1 False of
                           (True, vm2) \<Rightarrow> riscv32_trap_jump vm2
                         | (False, vm2) \<Rightarrow> vm2)
     \<and> ip (csr (run_event vm)) = ip2
     \<and> (\<forall>n. n \<noteq> INTERRUPT_MTIMER \<longrightarrow>
            bit ip2 n = (bit (ip (csr vm)) n \<or> bit (ev_int_mask vm) n))
     \<and> (bit ip2 INTERRUPT_MTIMER \<longleftrightarrow> bit ip1 INTERRUPT_MTIMER \<and> rvtimer_pending (timer vm))
     \<and> (bit ip1 INTERRUPT_MTIMER \<and> \<not> bit ip2 INTERRUPT_MTIMER
          \<longleftrightarrow> bit ip1 INTERRUPT_MTIMER \<and> \<not> rvtimer_pending (timer vm))"
proof -
  have run: "run_event vm = (case riscv32_handle_ip vm1 False of
                           (True, vm2) \<Rightarrow> riscv32_trap_jump vm2
                         | (False, vm2) \<Rightarrow> vm2)"
    using assms(1,2) unfolding assms(3,4,5) run_event_def Let_def mtimer_test
    by (simp cong: if_cong)
  have "ip (csr (run_event vm)) = ip (csr (snd (riscv32_handle_ip vm1 False)))"
    unfolding run by (cases "riscv32_handle_ip vm1 False") (auto simp: ip_trap_jump split: bool.splits)
  also have "\<dots> = ip2"
    by (simp add: ip_handle_ip assms(5))
  finally have ip: "ip (csr (run_event vm)) = ip2" .
  have others: "bit ip2 n = (bit (ip (csr vm)) n \<or> bit (ev_int_mask vm) n)"
    if "n \<noteq> INTERRUPT_MTIMER" for n
    using that unfolding assms(3,4)
    by (auto simp: bit_simps dest: bit_imp_le_length)
  have mt: "bit ip2 INTERRUPT_MTIMER \<longleftrightarrow> bit ip1 INTERRUPT_MTIMER \<and> rvtimer_pending (timer vm)"
    unfolding assms(4) by (auto simp: bit_simps)
  from run ip others mt show ?thesis by blast
qed

text \<open>
  The theorem at a hart whose event mask carries the timer and the external
  interrupt while the timer has not reached its compare value.
\<close>

theorem run_event_reconciles_ip_witness:
  "ev_int vm_irq_stale \<and> \<not> ev_trap vm_irq_stale
   \<and> \<not> rvtimer_pending (timer vm_irq_stale)
   \<and> ip (csr vm_irq_stale) OR ev_int_mask vm_irq_stale = 0x882
   \<and> bit (ip (csr vm_irq_stale) OR ev_int_mask vm_irq_stale) INTERRUPT_MTIMER
   \<and> ip (csr (run_event vm_irq_stale)) = 0x802
   \<and> \<not> bit (ip (csr (run_event vm_irq_stale))) INTERRUPT_MTIMER"
proof -
  have h: "ev_int vm_irq_stale" "\<not> ev_trap vm_irq_stale"
    and np: "\<not> rvtimer_pending (timer vm_irq_stale)"
    and ip1: "ip (csr vm_irq_stale) OR ev_int_mask vm_irq_stale = 0x882"
    by (simp_all add: vm_irq_stale_def vm_calloc_def csr_calloc_def rvtimer_pending_def)
  have b: "bit (0x882 :: u32) INTERRUPT_MTIMER"
    and c: "(0x882 :: u32) AND NOT (push_bit INTERRUPT_MTIMER 1) = 0x802"
    by (simp_all add: INTERRUPT_MTIMER_def)
  have nb: "\<not> bit (0x802 :: u32) INTERRUPT_MTIMER"
    by (simp add: INTERRUPT_MTIMER_def)
  have "ip (csr (run_event vm_irq_stale)) =
      (if bit (ip (csr vm_irq_stale) OR ev_int_mask vm_irq_stale) INTERRUPT_MTIMER
          \<and> \<not> rvtimer_pending (timer vm_irq_stale)
       then (ip (csr vm_irq_stale) OR ev_int_mask vm_irq_stale)
              AND NOT (push_bit INTERRUPT_MTIMER 1)
       else ip (csr vm_irq_stale) OR ev_int_mask vm_irq_stale)"
    using run_event_reconciles_ip[OF h refl refl refl] by blast
  then have "ip (csr (run_event vm_irq_stale)) = 0x802"
    unfolding ip1 using b c np by simp
  with h np ip1 b nb show ?thesis
    by simp
qed

section \<open>The hart registry\<close>

lemmas registry_eval = riscv32_create_vm_def create_vm_finish_def register_vm_def
  deregister_vm_def riscv32_destroy_vm_def thread_kill_def global_boot_def MAX_VMS_def Let_def

text \<open>
  C7.  \<^verbatim>\<open>riscv32_create_vm\<close> returns \<^verbatim>\<open>NULL\<close> when the hartid is 256 or more and when
  \<^verbatim>\<open>calloc\<close> fails, and in both cases the process state, the hart registry and
  its counter included, is what it was before the call: the call registers nothing.
\<close>

theorem create_vm_failure:
  assumes "256 \<le> hid \<or> alloc = None"
  shows "riscv32_create_vm g hid alloc dev_ok th = Inr (None, g)"
  using assms by (auto simp: riscv32_create_vm_def MAX_VMS_def)

text \<open>The theorem at hartid 256, and at hartid 0 with a failing allocation.\<close>

theorem create_vm_failure_witness:
  "(256 :: u32) \<le> 256
   \<and> riscv32_create_vm global_boot 256 (Some 1) True (Some 7) = Inr (None, global_boot)
   \<and> riscv32_create_vm global_boot 0 None True (Some 7) = Inr (None, global_boot)
   \<and> global_vm_list global_boot = (\<lambda>_. None)"
  using create_vm_failure[of 256 "Some 1" global_boot True "Some 7"]
    create_vm_failure[of 0 None global_boot True "Some 7"]
  by (simp add: global_boot_def)

text \<open>
  \<^verbatim>\<open>deregister_vm\<close> calls \<^verbatim>\<open>thread_kill\<close> only when \<^verbatim>\<open>global_vm_count\<close> is 0;
  \<^verbatim>\<open>register_vm\<close> increments the counter and nothing decrements it.
\<close>

lemma deregister_vm_no_kill:
  assumes "deregister_vm g vm = Inr g'" and "0 < global_vm_count g"
  shows "cancelled g' = cancelled g \<and> global_vm_count g' = global_vm_count g"
  using assms by (auto simp: deregister_vm_def Let_def split: option.splits)

lemma register_vm_count:
  assumes "register_vm g vm hid = Inr (True, g')"
  shows "global_vm_count g' = global_vm_count g + 1 \<and> cancelled g' = cancelled g"
  using assms by (auto simp: register_vm_def split: if_splits option.splits)

text \<open>
  C6.  The spec has the IRQ thread cancelled when the last registered hart
  deregisters.  On the code: the first hart is created with hartid 0 (the IRQ thread
  gets the handle 7) and then deregistered.  The registry is empty afterwards, the
  counter is still 1, and no thread has been cancelled.
\<close>

theorem deregister_last_hart_no_cancel:
  "\<exists>g1 g2. riscv32_create_vm global_boot 0 (Some 1) True (Some 7) = Inr (Some 1, g1)
      \<and> global_vm_list g1 = (\<lambda>_. None)(0 := Some 1)
      \<and> global_irq_thread g1 = Some 7
      \<and> global_vm_count g1 = 1
      \<and> deregister_vm g1 1 = Inr g2
      \<and> global_vm_list g2 = (\<lambda>_. None)
      \<and> global_vm_count g2 = 1
      \<and> global_irq_thread g2 = Some 7
      \<and> cancelled g2 = []"
  by (simp add: registry_eval)

section \<open>The ATA device\<close>

text \<open>
  \<^verbatim>\<open>ata_init\<close> returns only for a master image whose size can be read and is not
  zero: otherwise the first or the second call of \<^verbatim>\<open>get_img_size\<close> is handed
  \<^verbatim>\<open>NULL\<close>.
\<close>

lemma ata_init_Inr:
  assumes "ata_init master slave = Inr ata"
  shows "\<exists>f. master = Some f \<and> seekable f \<and> content f \<noteq> []"
proof (cases master)
  case None
  with assms show ?thesis
    by (simp add: ata_init_def get_img_size_def split: if_splits)
next
  case (Some f)
  have "seekable f \<and> content f \<noteq> []"
  proof (rule ccontr)
    assume "\<not> (seekable f \<and> content f \<noteq> [])"
    then have "get_img_size (Some f) = Inr (0, Some f) \<or> get_img_size (Some f) = Inr (0, Some (f\<lparr>pos := 0\<rparr>))"
      by (auto simp: get_img_size_def)
    with Some assms show False
      by (auto simp: ata_init_def Let_def DIV_ROUND_UP_def SECTOR_SIZE_def get_img_size_def)
  qed
  with Some show ?thesis by simp
qed

text \<open>
  C9 (as amended).  \<^verbatim>\<open>ata_init\<close> computes the size of the slave drive from the master drive's file.
  For every master image whose size can be read and is not zero, and whatever the
  slave argument is, \<^verbatim>\<open>ata_init\<close> returns and the slave drive has the sector count
  of the master image, the same as the master drive; and whenever \<^verbatim>\<open>ata_init\<close>
  returns, the slave drive has the sector count of the master image.
\<close>

theorem slave_size_from_master:
  "(master = Some f \<and> seekable f \<and> content f \<noteq> [] \<longrightarrow>
      (\<exists>ata. ata_init master slave = Inr ata
         \<and> d_size (drive ata 1) = DIV_ROUND_UP (length (content f)) SECTOR_SIZE
         \<and> d_size (drive ata 1) = d_size (drive ata 0)))
   \<and> (ata_init master slave = Inr ata \<longrightarrow>
      (\<exists>f. master = Some f
         \<and> d_size (drive ata 1) = DIV_ROUND_UP (length (content f)) SECTOR_SIZE
         \<and> d_size (drive ata 1) = d_size (drive ata 0)))"
proof -
  have a: "\<exists>ata. ata_init master slave = Inr ata
         \<and> d_size (drive ata 1) = DIV_ROUND_UP (length (content f)) SECTOR_SIZE
         \<and> d_size (drive ata 1) = d_size (drive ata 0)"
    if "master = Some f" "seekable f" "content f \<noteq> []" for f
  proof -
    from that(3) have pos: "0 < length (content f)" by simp
    then have "0 < DIV_ROUND_UP (length (content f)) SECTOR_SIZE"
      by (simp add: DIV_ROUND_UP_def SECTOR_SIZE_def div_greater_zero_iff Suc_le_eq)
    with that pos show ?thesis
      by (simp add: ata_init_def get_img_size_def Let_def)
  qed
  have b: "\<exists>f. master = Some f
         \<and> d_size (drive ata 1) = DIV_ROUND_UP (length (content f)) SECTOR_SIZE
         \<and> d_size (drive ata 1) = d_size (drive ata 0)"
    if r: "ata_init master slave = Inr ata"
  proof -
    from ata_init_Inr[OF r] obtain g where g: "master = Some g" "seekable g" "content g \<noteq> []"
      by blast
    from a[OF g] r g(1) show ?thesis by auto
  qed
  from a b show ?thesis by blast
qed

text \<open>The theorem at a master of two sectors and a slave of one: the slave reports two.\<close>

theorem slave_size_from_master_witness:
  "seekable (img 1024) \<and> content (img 1024) \<noteq> []
   \<and> length (content (img 1024)) = 1024 \<and> length (content (img 512)) = 512
   \<and> (\<exists>ata. ata_init (Some (img 1024)) (Some (img 512)) = Inr ata
        \<and> d_size (drive ata 1) = 2
        \<and> d_size (drive ata 1) = d_size (drive ata 0))"
proof -
  have h: "seekable (img 1024)" "content (img 1024) \<noteq> []"
    and l: "length (content (img 1024)) = 1024" "length (content (img 512)) = 512"
    by (simp_all add: img_def)
  have d: "DIV_ROUND_UP 1024 SECTOR_SIZE = 2"
    by (simp add: DIV_ROUND_UP_def SECTOR_SIZE_def)
  from slave_size_from_master[of "Some (img 1024)" "img 1024" "Some (img 512)"] h
  obtain ata where ata: "ata_init (Some (img 1024)) (Some (img 512)) = Inr ata"
    by blast
  from slave_size_from_master[of "Some (img 1024)" "img 1024" "Some (img 512)" ata] ata l d
  have "d_size (drive ata 1) = 2 \<and> d_size (drive ata 1) = d_size (drive ata 0)"
    by auto
  with ata h l show ?thesis by blast
qed

text \<open>
  An empty master image with a slave of one sector: \<^verbatim>\<open>ata->drive[0].fp\<close> has been
  reset to \<^verbatim>\<open>NULL\<close> by line 449, line 452 hands that to \<^verbatim>\<open>get_img_size\<close>, and no
  drive reports a size.
\<close>

theorem slave_size_empty_master_counterexample:
  "content (img 0) = [] \<and> seekable (img 0)
   \<and> get_img_size (Some (img 0)) = Inr (0, Some (img 0))
   \<and> ata_init (Some (img 0)) (Some (img 512)) = Inl NullPointer"
  by (simp add: ata_init_def get_img_size_def img_def DIV_ROUND_UP_def SECTOR_SIZE_def)

text \<open>
  C10.  A read of the data register (offset 0 of the data window) of any size, while
  \<^verbatim>\<open>bytes_to_rw\<close> of the selected drive is 0, returns true with the \<open>size\<close> destination
  bytes set to zero, and leaves the device as it was: the status, the error and the
  sector count of the drive with the rest.
\<close>

theorem data_read_idle:
  assumes "d_bytes_to_rw (drive ata (curdrive ata)) = 0"
    and "access \<noteq> MMU_WRITE"
    and "unat sz \<le> length memory_data"
  shows "ata_data_mmio_handler ata 0 memory_data sz access =
           Inr (True, replicate (unat sz) 0 @ drop (unat sz) memory_data, ata)"
  using assms
  by (simp add: ata_data_mmio_handler_def ata_data_read_def cur_def ATA_REG_SHIFT_def
      ATA_REG_DATA_def Let_def)

text \<open>The theorem at a four-byte read from an idle master drive.\<close>

theorem data_read_idle_witness:
  "d_bytes_to_rw (drive ata_idle (curdrive ata_idle)) = 0
   \<and> d_status (drive ata_idle (curdrive ata_idle)) = 80
   \<and> ata_data_mmio_handler ata_idle 0 [1, 2, 3, 4] 4 MMU_READ = Inr (True, [0, 0, 0, 0], ata_idle)"
proof -
  have h: "d_bytes_to_rw (drive ata_idle (curdrive ata_idle)) = 0"
    and s: "d_status (drive ata_idle (curdrive ata_idle)) = 80"
    by (simp_all add: ata_idle_def drive_calloc_def)
  have "unat (4 :: u32) = Suc (Suc (Suc (Suc 0)))"
    by simp
  then have r: "replicate (unat (4 :: u32)) (0 :: u8) = [0, 0, 0, 0]"
    by (simp only: replicate.simps)
  from data_read_idle[OF h, of MMU_READ 4 "[1, 2, 3, 4]"] h s r show ?thesis
    by simp
qed

end
